theory Spec2Isabelle
  imports Complex_Main "HOL-Library.AList"
begin

section \<open>make\_thumbs.py: batch generation of web thumbnails\<close>

text \<open>
  A shallow embedding of \<^verbatim>\<open>src/make_thumbs.py\<close>. The script's own functions
  (\<^verbatim>\<open>is_image\<close>, \<^verbatim>\<open>convert_mode\<close>, \<^verbatim>\<open>save_image\<close>, \<^verbatim>\<open>resize_fit\<close>,
  \<^verbatim>\<open>process_image\<close>, \<^verbatim>\<open>main\<close>) are translated line by line. What they call in
  \<^verbatim>\<open>pathlib\<close> and in Pillow is modelled as far as the script observes it:
  file names as strings, images as objects in a store (so that copying and in-place
  resizing are different things), the file system as an association list from paths to
  files with a modification time.
\<close>

subsection \<open>Paths\<close>

text \<open>
  A path is the list of its components; a component is a non-empty string without
  separator. \<^verbatim>\<open>name\<close>, \<^verbatim>\<open>suffix\<close>, \<^verbatim>\<open>stem\<close> and \<^verbatim>\<open>with_suffix\<close> follow
  \<^verbatim>\<open>pathlib.PurePath\<close> (Python 3.8 to 3.13): the suffix starts at the last dot of the
  name, unless that dot is the first or the last character.
\<close>

type_synonym path = "string list"

definition name :: "path \<Rightarrow> string" where
  "name p = (if p = [] then [] else last p)"

text \<open>\<^verbatim>\<open>str.rfind\<close> for a single character: the highest index, or -1.\<close>

fun rfind :: "string \<Rightarrow> char \<Rightarrow> int" where
  "rfind [] c = - 1"
| "rfind (x # xs) c =
     (let r = rfind xs c in if 0 \<le> r then r + 1 else if x = c then 0 else - 1)"

definition suffix :: "path \<Rightarrow> string" where
  "suffix p =
     (let nm = name p; i = rfind nm (CHR ''.'')
      in if 0 < i \<and> i < int (length nm) - 1 then drop (nat i) nm else [])"

definition stem :: "path \<Rightarrow> string" where
  "stem p =
     (let nm = name p; i = rfind nm (CHR ''.'')
      in if 0 < i \<and> i < int (length nm) - 1 then take (nat i) nm else nm)"

text \<open>\<^verbatim>\<open>directory / component\<close>, for a component without separator.\<close>

definition joinpath :: "path \<Rightarrow> string \<Rightarrow> path" where
  "joinpath d n = d @ [n]"

text \<open>
  \<^verbatim>\<open>str.lower\<close> on the ASCII letters. The script lower-cases a suffix only to compare
  it with ASCII literals, and no character outside ASCII lower-cases to one of their
  letters.
\<close>

definition lower_char :: "char \<Rightarrow> char" where
  "lower_char c =
     (case map_of (zip ''ABCDEFGHIJKLMNOPQRSTUVWXYZ'' ''abcdefghijklmnopqrstuvwxyz'') c of
        Some d \<Rightarrow> d
      | None \<Rightarrow> c)"

definition lower :: "string \<Rightarrow> string" where
  "lower s = map lower_char s"

subsection \<open>Exceptions\<close>

text \<open>
  Every exception of class \<^verbatim>\<open>Exception\<close> is a value carrying what \<^verbatim>\<open>str(e)\<close>
  returns. A function that can raise returns \<open>exn + 'a\<close>, \<open>Inl\<close> for the raise.
\<close>

datatype exn = Exception (message: string)

text \<open>
  \<^verbatim>\<open>PurePath.with_suffix\<close> for a suffix that is well formed (it starts with a dot and
  is not the dot alone): it raises on a path without a name.
\<close>

definition with_suffix :: "path \<Rightarrow> string \<Rightarrow> exn + path" where
  "with_suffix p sfx =
     (if name p = [] then Inl (Exception ''path has an empty name'')
      else Inr (butlast p @ [stem p @ sfx]))"

subsection \<open>Images in a store\<close>

text \<open>
  Pixel data is kept symbolically: where it was decoded from and what was done to it.
\<close>

datatype pixels =
    Decoded nat
  | Transposed nat pixels
  | Resampled pixels nat nat
  | Converted pixels string

record image =
  mode :: string
  width :: nat
  height :: nat
  orientation :: nat
  pixels :: pixels

text \<open>
  Image objects live in a store; a reference is an index into it. \<^verbatim>\<open>Image.copy\<close> and
  \<^verbatim>\<open>Image.convert\<close> allocate a new object, \<^verbatim>\<open>Image.thumbnail\<close> changes the
  object it is called on.
\<close>

type_synonym heap = "image list"

type_synonym ref = nat

definition Image_copy :: "heap \<Rightarrow> ref \<Rightarrow> heap \<times> ref" where
  "Image_copy h self = (h @ [h ! self], length h)"

definition Image_convert :: "heap \<Rightarrow> ref \<Rightarrow> string \<Rightarrow> heap \<times> ref" where
  "Image_convert h self m =
     (h @ [(h ! self)\<lparr>mode := m, pixels := Converted (pixels (h ! self)) m\<rparr>], length h)"

definition convert_mode :: "heap \<Rightarrow> ref \<Rightarrow> heap \<times> ref" where
  "convert_mode h img =
     (if mode (h ! img) \<in> {''P'', ''LA'', ''RGBA'', ''CMYK'', ''P;16'', ''I;16''}
      then Image_convert h img ''RGB''
      else if mode (h ! img) = ''L'' then Image_convert h img ''RGB''
      else (h, img))"

text \<open>
  \<^verbatim>\<open>Image.thumbnail\<close> of Pillow 9.1 and later (the script needs
  \<^verbatim>\<open>Image.Resampling\<close>, which 9.1 introduced). Pillow computes the aspect ratio and
  the scaled edge in double precision; the model computes them in exact rational
  arithmetic. \<^verbatim>\<open>min(a, b, key=k)\<close> returns \<open>a\<close> unless \<open>k b < k a\<close>.
\<close>

definition round_aspect :: "rat \<Rightarrow> (int \<Rightarrow> rat) \<Rightarrow> int" where
  "round_aspect number key =
     max (if key \<lceil>number\<rceil> < key \<lfloor>number\<rfloor> then \<lceil>number\<rceil> else \<lfloor>number\<rfloor>) 1"

definition preserve_aspect_ratio :: "image \<Rightarrow> int \<times> int \<Rightarrow> exn + (int \<times> int) option" where
  "preserve_aspect_ratio im provided_size =
     (let (x, y) = provided_size in
      if int (width im) \<le> x \<and> int (height im) \<le> y then Inr None
      else if height im = 0 then Inl (Exception ''division by zero'')
      else
        let aspect = rat_of_nat (width im) / rat_of_nat (height im) in
        if y = 0 then Inl (Exception ''division by zero'')
        else if aspect \<le> rat_of_int x / rat_of_int y then
          Inr (Some (round_aspect (rat_of_int y * aspect)
                       (\<lambda>n. \<bar>aspect - rat_of_int n / rat_of_int y\<bar>), y))
        else if aspect = 0 then Inl (Exception ''float division by zero'')
        else
          Inr (Some (x, round_aspect (rat_of_int x / aspect)
                          (\<lambda>n. if n = 0 then 0 else \<bar>aspect - rat_of_int x / rat_of_int n\<bar>))))"

text \<open>
  \<^verbatim>\<open>Image.resize\<close>: the resampler refuses a target edge below one pixel. The
  orientation tag and the mode are kept.
\<close>

definition Image_resize :: "image \<Rightarrow> int \<times> int \<Rightarrow> exn + image" where
  "Image_resize im sz =
     (let (x, y) = sz in
      if x < 1 \<or> y < 1 then Inl (Exception ''height and width must be > 0'')
      else Inr (im\<lparr>width := nat x, height := nat y,
                   pixels := Resampled (pixels im) (nat x) (nat y)\<rparr>))"

definition thumbnail :: "heap \<Rightarrow> ref \<Rightarrow> int \<times> int \<Rightarrow> exn + heap" where
  "thumbnail h self sz =
     (case preserve_aspect_ratio (h ! self) sz of
        Inl e \<Rightarrow> Inl e
      | Inr None \<Rightarrow> Inr h
      | Inr (Some preserved_size) \<Rightarrow>
          if (int (width (h ! self)), int (height (h ! self))) \<noteq> preserved_size then
            (case Image_resize (h ! self) preserved_size of
               Inl e \<Rightarrow> Inl e
             | Inr im \<Rightarrow> Inr (h[self := im]))
          else Inr h)"

definition resize_fit :: "heap \<Rightarrow> ref \<Rightarrow> int \<Rightarrow> exn + heap \<times> ref" where
  "resize_fit h img max_px =
     (let (h1, im) = Image_copy h img in
      case thumbnail h1 im (max_px, max_px) of
        Inl e \<Rightarrow> Inl e
      | Inr h2 \<Rightarrow> Inr (h2, im))"

text \<open>
  \<^verbatim>\<open>ImageOps.exif_transpose\<close>: a new object in both cases, transposed when the EXIF
  orientation is one of 2 to 8 (the edges swap for 5 to 8, and the tag is removed), a
  plain copy otherwise.
\<close>

definition exif_transpose :: "heap \<Rightarrow> ref \<Rightarrow> heap \<times> ref" where
  "exif_transpose h r =
     (let im = h ! r; k = orientation im in
      if 2 \<le> k \<and> k \<le> 8 then
        (h @ [im\<lparr>width := (if 5 \<le> k then height im else width im),
                 height := (if 5 \<le> k then width im else height im),
                 orientation := 1,
                 pixels := Transposed k (pixels im)\<rparr>], length h)
      else Image_copy h r)"

subsection \<open>The file system\<close>

text \<open>
  A file is either decodable as an image or not; \<open>Broken msg\<close> is a file on which
  opening or loading raises \<open>msg\<close>. Pillow reads the header in \<^verbatim>\<open>Image.open\<close> and the
  pixels in the first operation that needs them, which is \<^verbatim>\<open>exif_transpose\<close>; the
  model raises in \<open>Image_open\<close> in both cases. Modification times are only compared, so
  they are integers. Directories are not entries: a directory is the common prefix of
  the paths below it.
\<close>

datatype content = Broken string | Picture image

record entry =
  mtime :: int
  content :: content

text \<open>
  The world: the files in listing order, the clock that stamps a written file, and for
  every path and image whether saving there fails, with which message, and what is left
  at the path afterwards (\<open>None\<close>: no file).
\<close>

record world =
  files :: "(path \<times> entry) list"
  clock :: int
  save_fault :: "path \<Rightarrow> image \<Rightarrow> (string \<times> entry option) option"

definition exists :: "world \<Rightarrow> path \<Rightarrow> bool" where
  "exists w p = (map_of (files w) p \<noteq> None)"

definition st_mtime :: "world \<Rightarrow> path \<Rightarrow> exn + int" where
  "st_mtime w p =
     (case map_of (files w) p of
        None \<Rightarrow> Inl (Exception ''No such file or directory'')
      | Some f \<Rightarrow> Inr (mtime f))"

definition iterdir :: "world \<Rightarrow> path \<Rightarrow> path list" where
  "iterdir w d = filter (\<lambda>p. p \<noteq> [] \<and> butlast p = d) (map fst (files w))"

definition is_file :: "world \<Rightarrow> path \<Rightarrow> bool" where
  "is_file w p = exists w p"

definition Image_open :: "world \<Rightarrow> path \<Rightarrow> heap \<Rightarrow> exn + heap \<times> ref" where
  "Image_open w p h =
     (case map_of (files w) p of
        None \<Rightarrow> Inl (Exception ''No such file or directory'')
      | Some f \<Rightarrow>
          (case content f of
             Broken msg \<Rightarrow> Inl (Exception msg)
           | Picture im \<Rightarrow> Inr (h @ [im], length h)))"

definition Image_save :: "world \<Rightarrow> image \<Rightarrow> path \<Rightarrow> (exn + unit) \<times> world" where
  "Image_save w im p =
     (case save_fault w p im of
        Some (msg, leftover) \<Rightarrow>
          (Inl (Exception msg),
           w\<lparr>files := (case leftover of
                          None \<Rightarrow> AList.delete p (files w)
                        | Some f \<Rightarrow> AList.update p f (files w))\<rparr>)
      | None \<Rightarrow>
          (Inr (),
           w\<lparr>files := AList.update p \<lparr>mtime = clock w, content = Picture im\<rparr> (files w)\<rparr>))"

subsection \<open>The script\<close>

definition is_image :: "path \<Rightarrow> bool" where
  "is_image p =
     (lower (suffix p) \<in>
        {''.jpg'', ''.jpeg'', ''.png'', ''.webp'', ''.heic'', ''.heif'', ''.tif'', ''.tiff''})"

text \<open>
  \<^verbatim>\<open>save_image\<close>. The keyword arguments of the encoder (quality, optimisation,
  compression level) change the bytes written and nothing the model observes; the
  branches that set them are kept.
\<close>

definition save_image :: "world \<Rightarrow> heap \<Rightarrow> ref \<Rightarrow> path \<Rightarrow> (exn + path) \<times> world" where
  "save_image w h img out_path =
     (let ext = lower (suffix out_path) in
      if ext \<in> {''.jpg'', ''.jpeg''} then
        (let (h1, img1) = convert_mode h img;
             (r, w1) = Image_save w (h1 ! img1) out_path
         in (case r of Inl e \<Rightarrow> (Inl e, w1) | Inr u \<Rightarrow> (Inr out_path, w1)))
      else if ext = ''.png'' then
        (let (r, w1) = Image_save w (h ! img) out_path
         in (case r of Inl e \<Rightarrow> (Inl e, w1) | Inr u \<Rightarrow> (Inr out_path, w1)))
      else if ext = ''.webp'' then
        (let (r, w1) = Image_save w (h ! img) out_path
         in (case r of Inl e \<Rightarrow> (Inl e, w1) | Inr u \<Rightarrow> (Inr out_path, w1)))
      else
        (case with_suffix out_path ''.jpg'' of
           Inl e \<Rightarrow> (Inl e, w)
         | Inr out_path1 \<Rightarrow>
             (let (h1, img1) = convert_mode h img;
                  (r, w1) = Image_save w (h1 ! img1) out_path1
              in (case r of Inl e \<Rightarrow> (Inl e, w1) | Inr u \<Rightarrow> (Inr out_path1, w1)))))"

text \<open>
  The tuple \<^verbatim>\<open>process_image\<close> returns: its kind, then the name of the source file,
  then the names of the two outputs or the message of the exception.
\<close>

datatype outcome =
    Ok (file_name: string) string string
  | Skipped (file_name: string)
  | Error (file_name: string) string

text \<open>The three local variables of \<^verbatim>\<open>process_image\<close> that name the outputs.\<close>

definition out_ext :: "path \<Rightarrow> string" where
  "out_ext in_path =
     (let ext = lower (suffix in_path) in
      if ext \<in> {''.jpg'', ''.jpeg'', ''.png'', ''.webp''} then ext else ''.jpg'')"

definition small_out :: "path \<Rightarrow> path \<Rightarrow> path" where
  "small_out in_path small_dir = joinpath small_dir (stem in_path @ out_ext in_path)"

definition large_out :: "path \<Rightarrow> path \<Rightarrow> path" where
  "large_out in_path large_dir = joinpath large_dir (stem in_path @ out_ext in_path)"

text \<open>
  The condition under \<^verbatim>\<open># Skip if already fresh\<close>, with the short-circuit evaluation
  of \<^verbatim>\<open>and\<close>: \<^verbatim>\<open>stat\<close> is called on an output only after \<^verbatim>\<open>exists\<close> answered
  true, and on the source once for each output.
\<close>

definition already_fresh :: "world \<Rightarrow> path \<Rightarrow> path \<Rightarrow> path \<Rightarrow> exn + bool" where
  "already_fresh w in_path s_out l_out =
     (if \<not> exists w s_out then Inr False
      else case st_mtime w s_out of Inl e \<Rightarrow> Inl e | Inr ms \<Rightarrow>
        (case st_mtime w in_path of Inl e \<Rightarrow> Inl e | Inr mi \<Rightarrow>
          (if \<not> mi \<le> ms then Inr False
           else if \<not> exists w l_out then Inr False
           else case st_mtime w l_out of Inl e \<Rightarrow> Inl e | Inr ml \<Rightarrow>
             (case st_mtime w in_path of Inl e \<Rightarrow> Inl e | Inr mi2 \<Rightarrow> Inr (mi2 \<le> ml)))))"

text \<open>
  The body of the \<^verbatim>\<open>try\<close> of \<^verbatim>\<open>process_image\<close>: the outcome it returns or the
  exception that leaves it, and the world at that moment. The image objects are local to
  the call, so the store starts empty and is dropped at the end.
\<close>

definition process_image_try ::
  "world \<Rightarrow> path \<Rightarrow> path \<Rightarrow> path \<Rightarrow> int \<Rightarrow> int \<Rightarrow> (exn + outcome) \<times> world" where
  "process_image_try w in_path small_dir large_dir max_small max_large =
     (case Image_open w in_path [] of
        Inl e \<Rightarrow> (Inl e, w)
      | Inr (h0, opened) \<Rightarrow>
          (let (h1, im0) = exif_transpose h0 opened;
               s_out = small_out in_path small_dir;
               l_out = large_out in_path large_dir
           in case already_fresh w in_path s_out l_out of
                Inl e \<Rightarrow> (Inl e, w)
              | Inr True \<Rightarrow> (Inr (Skipped (name in_path)), w)
              | Inr False \<Rightarrow>
                  (case resize_fit h1 im0 max_small of
                     Inl e \<Rightarrow> (Inl e, w)
                   | Inr (h2, small_im) \<Rightarrow>
                       (case resize_fit h2 im0 max_large of
                          Inl e \<Rightarrow> (Inl e, w)
                        | Inr (h3, large_im) \<Rightarrow>
                            (case save_image w h3 small_im s_out of
                               (Inl e, w1) \<Rightarrow> (Inl e, w1)
                             | (Inr written_small, w1) \<Rightarrow>
                                 (case save_image w1 h3 large_im l_out of
                                    (Inl e, w2) \<Rightarrow> (Inl e, w2)
                                  | (Inr written_large, w2) \<Rightarrow>
                                      (Inr (Ok (name in_path) (name s_out) (name l_out)),
                                       w2)))))))"

text \<open>\<^verbatim>\<open>process_image\<close>: the \<^verbatim>\<open>try\<close> with its \<^verbatim>\<open>except Exception\<close> handler.\<close>

definition process_image ::
  "world \<Rightarrow> path \<Rightarrow> path \<Rightarrow> path \<Rightarrow> int \<Rightarrow> int \<Rightarrow> outcome \<times> world" where
  "process_image w in_path small_dir large_dir max_small max_large =
     (case process_image_try w in_path small_dir large_dir max_small max_large of
        (Inl e, w1) \<Rightarrow> (Error (name in_path) (message e), w1)
      | (Inr result, w1) \<Rightarrow> (result, w1))"

text \<open>
  \<^verbatim>\<open>main\<close>: the parsed arguments, the scan of the source directory, the loop over the
  files and the summary counts. The two \<^verbatim>\<open>mkdir\<close> calls have no counterpart, since
  directories are not entries of the world; a save into a directory that cannot be
  written is a \<open>save_fault\<close>.
\<close>

record args =
  src :: path
  small :: path
  large :: path
  max_small :: int
  max_large :: int

record results =
  ok :: nat
  skipped :: nat
  error :: nat

fun count_kind :: "results \<Rightarrow> outcome \<Rightarrow> results" where
  "count_kind r (Ok n s l) = r\<lparr>ok := ok r + 1\<rparr>"
| "count_kind r (Skipped n) = r\<lparr>skipped := skipped r + 1\<rparr>"
| "count_kind r (Error n m) = r\<lparr>error := error r + 1\<rparr>"

text \<open>
  \<^verbatim>\<open>print\<close> writes a line to the standard output: the tuple of an outcome, or the
  summary. It is called outside every \<^verbatim>\<open>try\<close>, and it raises when the stream does not
  take the line (a closed pipe, a file name the encoding of the stream cannot encode).
  The stream is a parameter: for every line, whether writing it raises and with which
  message.
\<close>

datatype line = Report outcome | Summary results

type_synonym stdout = "line \<Rightarrow> string option"

definition print :: "stdout \<Rightarrow> line \<Rightarrow> exn + unit" where
  "print out l = (case out l of Some msg \<Rightarrow> Inl (Exception msg) | None \<Rightarrow> Inr ())"

text \<open>
  The loop of \<^verbatim>\<open>main\<close>: the outcomes printed so far, the exception that ended the
  loop if \<^verbatim>\<open>print\<close> raised one, and the world at that moment. A file is counted
  before its line is printed, but the counts are shown only in the summary, so they are
  taken from the printed outcomes once the loop has finished.
\<close>

fun main_loop ::
  "stdout \<Rightarrow> world \<Rightarrow> path list \<Rightarrow> args \<Rightarrow> (outcome list \<times> exn option) \<times> world" where
  "main_loop out w [] a = (([], None), w)"
| "main_loop out w (p # imgs) a =
     (let (r, w1) = process_image w p (small a) (large a) (max_small a) (max_large a)
      in case print out (Report r) of
           Inl e \<Rightarrow> (([], Some e), w1)
         | Inr u \<Rightarrow>
             (let ((rs, raised), w2) = main_loop out w1 imgs a
              in ((r # rs, raised), w2)))"

definition scan :: "world \<Rightarrow> path \<Rightarrow> path list" where
  "scan w d = filter (\<lambda>p. is_file w p \<and> is_image p) (iterdir w d)"

text \<open>
  \<^verbatim>\<open>main\<close> returns the outcomes it printed and how it ended: with an uncaught exception
  of \<^verbatim>\<open>print\<close>, or with the summary it printed last.
\<close>

definition main ::
  "stdout \<Rightarrow> world \<Rightarrow> args \<Rightarrow> (outcome list \<times> (exn + results)) \<times> world" where
  "main out w a =
     (let imgs = scan w (src a);
          ((printed, raised), w1) = main_loop out w imgs a
      in case raised of
           Some e \<Rightarrow> ((printed, Inl e), w1)
         | None \<Rightarrow>
             (let counts = foldl count_kind \<lparr>ok = 0, skipped = 0, error = 0\<rparr> printed
              in case print out (Summary counts) of
                   Inl e \<Rightarrow> ((printed, Inl e), w1)
                 | Inr u \<Rightarrow> ((printed, Inr counts), w1)))"

subsection \<open>Example inputs\<close>

text \<open>
  Four images, the default arguments of the script, a standard output that takes every
  line and one that takes none, and a few directories: the gallery of two photographs,
  the same gallery on a disk that refuses two of the outputs, one with a file that cannot
  be decoded, one with upper-case and unsupported extensions, one whose outputs are up to
  date, and one whose outputs are up to date while the source cannot be decoded.
\<close>

definition photo :: image where
  "photo = \<lparr>mode = ''RGB'', width = 3000, height = 2000, orientation = 1, pixels = Decoded 0\<rparr>"

definition icon :: image where
  "icon = \<lparr>mode = ''RGBA'', width = 500, height = 300, orientation = 1, pixels = Decoded 1\<rparr>"

definition dot :: image where
  "dot = \<lparr>mode = ''L'', width = 1, height = 1, orientation = 1, pixels = Decoded 2\<rparr>"

definition scan_cmyk :: image where
  "scan_cmyk = \<lparr>mode = ''CMYK'', width = 100, height = 200, orientation = 1, pixels = Decoded 3\<rparr>"

definition default_args :: args where
  "default_args = \<lparr>src = [''images''], small = [''images'', ''small''],
     large = [''images'', ''large''], max_small = 1200, max_large = 2400\<rparr>"

definition terminal :: stdout where
  "terminal l = None"

definition closed_pipe :: stdout where
  "closed_pipe l = Some ''Broken pipe''"

definition gallery :: world where
  "gallery = \<lparr>files =
       [([''images'', ''a.jpg''], \<lparr>mtime = 5, content = Picture photo\<rparr>),
        ([''images'', ''b.png''], \<lparr>mtime = 6, content = Picture icon\<rparr>)],
     clock = 10, save_fault = (\<lambda>p im. None)\<rparr>"

definition full_disk :: world where
  "full_disk = \<lparr>files =
       [([''images'', ''a.jpg''], \<lparr>mtime = 5, content = Picture photo\<rparr>),
        ([''images'', ''b.png''], \<lparr>mtime = 6, content = Picture icon\<rparr>)],
     clock = 10,
     save_fault = (\<lambda>p im. if p = [''images'', ''large'', ''a.jpg''] \<or> p = [''images'', ''small'', ''b.png'']
                           then Some (''No space left on device'', None) else None)\<rparr>"

definition corrupt_world :: world where
  "corrupt_world = \<lparr>files =
       [([''images'', ''c.jpg''], \<lparr>mtime = 5, content = Broken ''cannot identify image file''\<rparr>),
        ([''images'', ''a.jpg''], \<lparr>mtime = 5, content = Picture photo\<rparr>)],
     clock = 10, save_fault = (\<lambda>p im. None)\<rparr>"

definition camera_world :: world where
  "camera_world = \<lparr>files =
       [([''images'', ''IMG.JPG''], \<lparr>mtime = 5, content = Picture photo\<rparr>),
        ([''images'', ''DSC1.PNG''], \<lparr>mtime = 6, content = Picture icon\<rparr>),
        ([''images'', ''scan.tiff''], \<lparr>mtime = 7, content = Picture scan_cmyk\<rparr>)],
     clock = 10, save_fault = (\<lambda>p im. None)\<rparr>"

definition kept_world :: world where
  "kept_world = \<lparr>files =
       [([''images'', ''a.jpg''], \<lparr>mtime = 5, content = Picture photo\<rparr>),
        ([''images'', ''small'', ''a.jpg''], \<lparr>mtime = 7, content = Picture photo\<rparr>),
        ([''images'', ''large'', ''a.jpg''], \<lparr>mtime = 5, content = Picture photo\<rparr>)],
     clock = 10, save_fault = (\<lambda>p im. None)\<rparr>"

definition stale_world :: world where
  "stale_world = \<lparr>files =
       [([''images'', ''c.jpg''], \<lparr>mtime = 5, content = Broken ''cannot identify image file''\<rparr>),
        ([''images'', ''small'', ''c.jpg''], \<lparr>mtime = 7, content = Picture photo\<rparr>),
        ([''images'', ''large'', ''c.jpg''], \<lparr>mtime = 5, content = Picture photo\<rparr>)],
     clock = 10, save_fault = (\<lambda>p im. None)\<rparr>"

subsection \<open>Names: stem and suffix\<close>

lemma rfind_lower_bound: "- 1 \<le> rfind s c"
  by (induction s) (auto simp: Let_def)

lemma rfind_upper_bound: "rfind s c < int (length s)"
  by (induction s) (auto simp: Let_def)

lemma rfind_absent: "c \<notin> set s \<Longrightarrow> rfind s c = - 1"
  by (induction s) (auto simp: Let_def)

lemma rfind_found: "c \<notin> set t \<Longrightarrow> rfind (s @ c # t) c = int (length s)"
  by (induction s) (auto simp: Let_def rfind_absent)

lemma stem_suffix: "stem p @ suffix p = name p"
  by (simp add: stem_def suffix_def Let_def)

lemma name_joinpath: "name (joinpath d n) = n"
  by (simp add: name_def joinpath_def)

lemma suffix_joinpath:
  assumes "s \<noteq> []" "t \<noteq> []" "CHR ''.'' \<notin> set t"
  shows "suffix (joinpath d (s @ CHR ''.'' # t)) = CHR ''.'' # t"
  using assms by (simp add: suffix_def name_joinpath rfind_found Let_def)

lemma stem_joinpath:
  assumes "s \<noteq> []" "t \<noteq> []" "CHR ''.'' \<notin> set t"
  shows "stem (joinpath d (s @ CHR ''.'' # t)) = s"
  using assms by (simp add: stem_def name_joinpath rfind_found Let_def)

lemma stem_nonempty: "name p \<noteq> [] \<Longrightarrow> stem p \<noteq> []"
  by (auto simp: stem_def Let_def)

lemma out_ext_cases:
  "out_ext p = ''.jpg'' \<or> out_ext p = ''.jpeg'' \<or> out_ext p = ''.png'' \<or> out_ext p = ''.webp''"
  by (auto simp: out_ext_def Let_def)

lemma out_ext_shape: "\<exists>t. out_ext p = CHR ''.'' # t \<and> t \<noteq> [] \<and> CHR ''.'' \<notin> set t"
  using out_ext_cases [of p] by auto

lemma suffix_small_out: "name p \<noteq> [] \<Longrightarrow> suffix (small_out p d) = out_ext p"
  using out_ext_shape [of p] by (auto simp: small_out_def suffix_joinpath stem_nonempty)

lemma suffix_large_out: "name p \<noteq> [] \<Longrightarrow> suffix (large_out p d) = out_ext p"
  using out_ext_shape [of p] by (auto simp: large_out_def suffix_joinpath stem_nonempty)

lemma stem_small_out: "name p \<noteq> [] \<Longrightarrow> stem (small_out p d) = stem p"
  using out_ext_shape [of p] by (auto simp: small_out_def stem_joinpath stem_nonempty)

lemma stem_large_out: "name p \<noteq> [] \<Longrightarrow> stem (large_out p d) = stem p"
  using out_ext_shape [of p] by (auto simp: large_out_def stem_joinpath stem_nonempty)

lemma lower_out_ext: "lower (out_ext p) = out_ext p"
  using out_ext_cases [of p] by (auto simp: lower_def lower_char_def)

lemma stem_name_cong: "name p = name q \<Longrightarrow> stem p = stem q"
  by (simp add: stem_def)

lemma name_single: "name [s] = s"
  by (simp add: name_def)

lemma name_small_out: "name (small_out p d) = stem p @ out_ext p"
  by (simp add: small_out_def name_joinpath)

lemma name_large_out: "name (large_out p d) = stem p @ out_ext p"
  by (simp add: large_out_def name_joinpath)

lemma lower_supported:
  "s \<in> {''.jpg'', ''.jpeg'', ''.png'', ''.webp''} \<Longrightarrow> lower s = s"
  by (auto simp: lower_def lower_char_def)

lemma out_ext_differs:
  "out_ext p \<noteq> suffix p \<longleftrightarrow> suffix p \<notin> {''.jpg'', ''.jpeg'', ''.png'', ''.webp''}"
proof (cases "suffix p \<in> {''.jpg'', ''.jpeg'', ''.png'', ''.webp''}")
  case True
  then have "lower (suffix p) = suffix p" by (rule lower_supported)
  then show ?thesis using True by (simp add: out_ext_def)
next
  case False
  then show ?thesis using out_ext_cases [of p] by auto
qed

lemma butlast_small_out: "butlast (small_out p d) = d"
  by (simp add: small_out_def joinpath_def)

lemma butlast_large_out: "butlast (large_out p d) = d"
  by (simp add: large_out_def joinpath_def)

lemma is_image_name: "is_image p \<Longrightarrow> name p \<noteq> []"
  by (auto simp: is_image_def suffix_def lower_def Let_def split: if_splits)

subsection \<open>Resizing\<close>

lemma round_aspect_lower: "1 \<le> round_aspect v key"
  by (simp add: round_aspect_def)

lemma round_aspect_upper:
  assumes "v \<le> rat_of_int n" "1 \<le> n"
  shows "round_aspect v key \<le> n"
proof -
  have a: "\<lceil>v\<rceil> \<le> n" using assms(1) by (simp add: ceiling_le_iff)
  have "\<lfloor>v\<rfloor> \<le> \<lceil>v\<rceil>" by (rule floor_le_ceiling)
  with a have b: "\<lfloor>v\<rfloor> \<le> n" by linarith
  show ?thesis using a b assms(2) by (simp add: round_aspect_def)
qed

lemma round_aspect_near:
  assumes "0 < v"
  shows "\<bar>rat_of_int (round_aspect v key) - v\<bar> < 1"
proof -
  define c where "c = (if key \<lceil>v\<rceil> < key \<lfloor>v\<rfloor> then \<lceil>v\<rceil> else \<lfloor>v\<rfloor>)"
  have r: "round_aspect v key = max c 1" by (simp add: round_aspect_def c_def)
  have c: "c = \<lceil>v\<rceil> \<or> c = \<lfloor>v\<rfloor>" by (simp add: c_def)
  have f: "rat_of_int \<lfloor>v\<rfloor> \<le> v" "v < rat_of_int \<lfloor>v\<rfloor> + 1" by linarith+
  have g: "v \<le> rat_of_int \<lceil>v\<rceil>" "rat_of_int \<lceil>v\<rceil> < v + 1" by linarith+
  have f0: "0 \<le> \<lfloor>v\<rfloor>" using assms by simp
  have g0: "1 \<le> \<lceil>v\<rceil>" using assms by (simp add: le_ceiling_iff)
  show ?thesis
  proof (cases "1 \<le> c")
    case True
    then have "round_aspect v key = c" using r by simp
    then show ?thesis using c f g by auto
  next
    case False
    then have nc: "c \<noteq> \<lceil>v\<rceil>" using g0 by linarith
    then have cf: "c = \<lfloor>v\<rfloor>" using c by blast
    then have "c = 0" using False f0 by linarith
    then have "\<lfloor>v\<rfloor> = 0" using cf by simp
    then have "v < 1" using f by simp
    moreover have "round_aspect v key = 1" using r \<open>c = 0\<close> by simp
    ultimately show ?thesis using assms by simp
  qed
qed

lemma thumbnail_within:
  assumes "int (width (h ! r)) \<le> n" "int (height (h ! r)) \<le> n"
  shows "thumbnail h r (n, n) = Inr h"
  using assms by (simp add: thumbnail_def preserve_aspect_ratio_def)

lemma resize_fit_within:
  assumes "r < length h" "int (width (h ! r)) \<le> n" "int (height (h ! r)) \<le> n"
  shows "resize_fit h r n = Inr (h @ [h ! r], length h)"
  using assms by (simp add: resize_fit_def Image_copy_def thumbnail_within nth_append)

lemma preserve_portrait:
  assumes "1 \<le> n" "0 < width im" "0 < height im" "width im \<le> height im" "n < int (height im)"
  shows "preserve_aspect_ratio im (n, n) =
           Inr (Some (round_aspect (rat_of_int n * (rat_of_nat (width im) / rat_of_nat (height im)))
                        (\<lambda>k. \<bar>rat_of_nat (width im) / rat_of_nat (height im) - rat_of_int k / rat_of_int n\<bar>), n))"
  using assms by (simp add: preserve_aspect_ratio_def Let_def)

lemma preserve_landscape:
  assumes "1 \<le> n" "0 < width im" "0 < height im" "height im < width im" "n < int (width im)"
  shows "preserve_aspect_ratio im (n, n) =
           Inr (Some (n, round_aspect (rat_of_int n / (rat_of_nat (width im) / rat_of_nat (height im)))
                        (\<lambda>k. if k = 0 then 0 else \<bar>rat_of_nat (width im) / rat_of_nat (height im) - rat_of_int n / rat_of_int k\<bar>)))"
  using assms by (simp add: preserve_aspect_ratio_def Let_def)

lemma resize_fit_portrait:
  assumes "r < length h" "1 \<le> n" "0 < width (h ! r)" "0 < height (h ! r)"
    "width (h ! r) \<le> height (h ! r)" "n < int (height (h ! r))"
  shows "\<exists>x im. resize_fit h r n = Inr (h @ [im], length h) \<and> 1 \<le> x \<and> x \<le> n \<and>
           \<bar>rat_of_int x - rat_of_int n * rat_of_nat (width (h ! r)) / rat_of_nat (height (h ! r))\<bar> < 1 \<and>
           im = (h ! r)\<lparr>width := nat x, height := nat n,
                         pixels := Resampled (pixels (h ! r)) (nat x) (nat n)\<rparr>"
proof -
  define a where "a = rat_of_nat (width (h ! r)) / rat_of_nat (height (h ! r))"
  define key where "key = (\<lambda>k. \<bar>a - rat_of_int k / rat_of_int n\<bar>)"
  define x where "x = round_aspect (rat_of_int n * a) key"
  have a1: "0 < a" "a \<le> 1" using assms(3,4,5) by (simp_all add: a_def)
  have v0: "0 < rat_of_int n * a" using a1 assms(2) by simp
  have "rat_of_int n * a \<le> rat_of_int n * 1"
    using a1 assms(2) by (intro mult_left_mono) simp_all
  then have v1: "rat_of_int n * a \<le> rat_of_int n" by simp
  have x1: "1 \<le> x" unfolding x_def by (rule round_aspect_lower)
  have x2: "x \<le> n" unfolding x_def using v1 assms(2) by (rule round_aspect_upper)
  have x3: "\<bar>rat_of_int x - rat_of_int n * a\<bar> < 1" unfolding x_def using v0 by (rule round_aspect_near)
  have p: "preserve_aspect_ratio (h ! r) (n, n) = Inr (Some (x, n))"
    unfolding x_def key_def a_def by (rule preserve_portrait [OF assms(2,3,4,5,6)])
  have ne: "(int (width (h ! r)), int (height (h ! r))) \<noteq> (x, n)" using assms(6) by simp
  have rs: "Image_resize (h ! r) (x, n) =
              Inr ((h ! r)\<lparr>width := nat x, height := nat n,
                            pixels := Resampled (pixels (h ! r)) (nat x) (nat n)\<rparr>)"
    using x1 assms(2) by (simp add: Image_resize_def)
  have "thumbnail (h @ [h ! r]) (length h) (n, n) =
          Inr ((h @ [h ! r])[length h := (h ! r)\<lparr>width := nat x, height := nat n,
                            pixels := Resampled (pixels (h ! r)) (nat x) (nat n)\<rparr>])"
    using p ne rs by (simp add: thumbnail_def)
  then have "resize_fit h r n = Inr (h @ [(h ! r)\<lparr>width := nat x, height := nat n,
                            pixels := Resampled (pixels (h ! r)) (nat x) (nat n)\<rparr>], length h)"
    by (simp add: resize_fit_def Image_copy_def)
  then show ?thesis using x1 x2 x3 by (auto simp: a_def)
qed

lemma resize_fit_landscape:
  assumes "r < length h" "1 \<le> n" "0 < width (h ! r)" "0 < height (h ! r)"
    "height (h ! r) < width (h ! r)" "n < int (width (h ! r))"
  shows "\<exists>y im. resize_fit h r n = Inr (h @ [im], length h) \<and> 1 \<le> y \<and> y \<le> n \<and>
           \<bar>rat_of_int y - rat_of_int n * rat_of_nat (height (h ! r)) / rat_of_nat (width (h ! r))\<bar> < 1 \<and>
           im = (h ! r)\<lparr>width := nat n, height := nat y,
                         pixels := Resampled (pixels (h ! r)) (nat n) (nat y)\<rparr>"
proof -
  define a where "a = rat_of_nat (width (h ! r)) / rat_of_nat (height (h ! r))"
  define key where "key = (\<lambda>k. if k = 0 then 0 else \<bar>a - rat_of_int n / rat_of_int k\<bar>)"
  define y where "y = round_aspect (rat_of_int n / a) key"
  have a1: "1 < a" using assms(3,4,5) by (simp add: a_def)
  have v0: "0 < rat_of_int n / a" using a1 assms(2) by simp
  have "rat_of_int n / a \<le> rat_of_int n / 1"
    using a1 assms(2) by (intro divide_left_mono) simp_all
  then have v1: "rat_of_int n / a \<le> rat_of_int n" by simp
  have y1: "1 \<le> y" unfolding y_def by (rule round_aspect_lower)
  have y2: "y \<le> n" unfolding y_def using v1 assms(2) by (rule round_aspect_upper)
  have y3: "\<bar>rat_of_int y - rat_of_int n / a\<bar> < 1" unfolding y_def using v0 by (rule round_aspect_near)
  have p: "preserve_aspect_ratio (h ! r) (n, n) = Inr (Some (n, y))"
    unfolding y_def key_def a_def by (rule preserve_landscape [OF assms(2,3,4,5,6)])
  have ne: "(int (width (h ! r)), int (height (h ! r))) \<noteq> (n, y)" using assms(6) by simp
  have rs: "Image_resize (h ! r) (n, y) =
              Inr ((h ! r)\<lparr>width := nat n, height := nat y,
                            pixels := Resampled (pixels (h ! r)) (nat n) (nat y)\<rparr>)"
    using y1 assms(2) by (simp add: Image_resize_def)
  have "thumbnail (h @ [h ! r]) (length h) (n, n) =
          Inr ((h @ [h ! r])[length h := (h ! r)\<lparr>width := nat n, height := nat y,
                            pixels := Resampled (pixels (h ! r)) (nat n) (nat y)\<rparr>])"
    using p ne rs by (simp add: thumbnail_def)
  then have "resize_fit h r n = Inr (h @ [(h ! r)\<lparr>width := nat n, height := nat y,
                            pixels := Resampled (pixels (h ! r)) (nat n) (nat y)\<rparr>], length h)"
    by (simp add: resize_fit_def Image_copy_def)
  then show ?thesis using y1 y2 y3 by (auto simp: a_def)
qed




subsection \<open>Saving and processing one file\<close>

lemma Image_save_ok:
  assumes "Image_save w im p = (Inr u, w1)"
  shows "w1 = w\<lparr>files := AList.update p \<lparr>mtime = clock w, content = Picture im\<rparr> (files w)\<rparr>"
  using assms by (auto simp: Image_save_def split: option.splits prod.splits)

lemma save_image_written:
  assumes "save_image w h img q = (Inr written, w1)"
  shows "w1 = w\<lparr>files := AList.update written
            \<lparr>mtime = clock w,
             content = Picture (if lower (suffix q) \<in> {''.png'', ''.webp''} then h ! img
                                else fst (convert_mode h img) ! snd (convert_mode h img))\<rparr> (files w)\<rparr>"
  using assms
  by (auto simp: save_image_def Let_def dest!: Image_save_ok
      split: if_splits sum.splits prod.splits)

lemma save_image_path:
  assumes "save_image w h img q = (Inr written, w1)"
  shows "written = (if lower (suffix q) \<in> {''.jpg'', ''.jpeg'', ''.png'', ''.webp''} then q
                    else butlast q @ [stem q @ ''.jpg''])"
    and "lower (suffix q) \<notin> {''.jpg'', ''.jpeg'', ''.png'', ''.webp''} \<Longrightarrow> name q \<noteq> []"
  using assms
  by (auto simp: save_image_def Let_def with_suffix_def
      split: if_splits sum.splits prod.splits)

lemma save_image_supported:
  assumes "save_image w h img q = (Inr written, w1)"
    "lower (suffix q) \<in> {''.jpg'', ''.jpeg'', ''.png'', ''.webp''}"
  shows "\<exists>im. w1 = w\<lparr>files := AList.update q \<lparr>mtime = clock w, content = Picture im\<rparr> (files w)\<rparr>"
  using save_image_written [OF assms(1)] save_image_path(1) [OF assms(1)] assms(2)
  by (simp del: insert_iff) blast

lemma process_image_result:
  assumes "process_image w p sd ld a b = (r, w1)" "name p \<noteq> []"
  shows "(\<exists>m. r = Error (name p) m)
       \<or> (r = Skipped (name p) \<and> w1 = w
            \<and> already_fresh w p (small_out p sd) (large_out p ld) = Inr True
            \<and> (\<exists>x. Image_open w p [] = Inr x))
       \<or> (r = Ok (name p) (name (small_out p sd)) (name (large_out p ld))
            \<and> (\<exists>x. Image_open w p [] = Inr x)
            \<and> (\<exists>ims iml. w1 = w\<lparr>files :=
                  AList.update (large_out p ld) \<lparr>mtime = clock w, content = Picture iml\<rparr>
                    (AList.update (small_out p sd) \<lparr>mtime = clock w, content = Picture ims\<rparr>
                       (files w))\<rparr>))"
proof -
  have s: "lower (suffix (small_out p sd)) \<in> {''.jpg'', ''.jpeg'', ''.png'', ''.webp''}"
    using assms(2) out_ext_cases [of p] by (simp add: suffix_small_out lower_out_ext)
  have l: "lower (suffix (large_out p ld)) \<in> {''.jpg'', ''.jpeg'', ''.png'', ''.webp''}"
    using assms(2) out_ext_cases [of p] by (simp add: suffix_large_out lower_out_ext)
  have two: "\<exists>ims iml. w2 = w\<lparr>files :=
                  AList.update (large_out p ld) \<lparr>mtime = clock w, content = Picture iml\<rparr>
                    (AList.update (small_out p sd) \<lparr>mtime = clock w, content = Picture ims\<rparr>
                       (files w))\<rparr>"
    if a: "save_image w h sm (small_out p sd) = (Inr ws, wa)"
      and b: "save_image wa h lg (large_out p ld) = (Inr wl, w2)" for h sm lg ws wl wa w2
  proof -
    from save_image_supported [OF a s] obtain ims where
      wa: "wa = w\<lparr>files := AList.update (small_out p sd) \<lparr>mtime = clock w, content = Picture ims\<rparr> (files w)\<rparr>"
      by blast
    from save_image_supported [OF b l] obtain iml where
      "w2 = wa\<lparr>files := AList.update (large_out p ld) \<lparr>mtime = clock wa, content = Picture iml\<rparr> (files wa)\<rparr>"
      by blast
    then show ?thesis using wa by auto
  qed
  show ?thesis
    using assms(1)
    by (auto simp: process_image_def process_image_try_def Let_def
        split: sum.splits prod.splits bool.splits dest: two)
qed

lemma process_image_Ok:
  assumes "process_image w p sd ld a b = (Ok n s l, w1)" "name p \<noteq> []"
  shows "n = name p \<and> s = name (small_out p sd) \<and> l = name (large_out p ld) \<and>
         exists w1 (small_out p sd) \<and> exists w1 (large_out p ld)"
  using process_image_result [OF assms]
  by (auto simp: exists_def update_conv')

lemma save_image_differs:
  assumes "save_image w h img q = (Inr written, w1)"
  shows "exists w1 written \<and>
         (written \<noteq> q \<longleftrightarrow> lower (suffix q) \<notin> {''.jpg'', ''.jpeg'', ''.png'', ''.webp''})"
proof -
  have e: "exists w1 written"
    using save_image_written [OF assms] by (simp add: exists_def update_conv')
  show ?thesis
  proof (cases "lower (suffix q) \<in> {''.jpg'', ''.jpeg'', ''.png'', ''.webp''}")
    case True
    then show ?thesis using e save_image_path(1) [OF assms] by simp
  next
    case False
    then have n: "name q \<noteq> []" using save_image_path(2) [OF assms] by simp
    then have q: "q \<noteq> []" by (auto simp: name_def)
    have w: "written = butlast q @ [stem q @ ''.jpg'']"
      using False save_image_path(1) [OF assms] by simp
    have "suffix q \<noteq> ''.jpg''"
    proof
      assume "suffix q = ''.jpg''"
      then have "lower (suffix q) = ''.jpg''" by (simp add: lower_def lower_char_def)
      then show False using False by simp
    qed
    then have "stem q @ ''.jpg'' \<noteq> stem q @ suffix q" by simp
    then have "stem q @ ''.jpg'' \<noteq> name q" unfolding stem_suffix .
    then have "stem q @ ''.jpg'' \<noteq> last q" using q by (simp add: name_def)
    then have "butlast q @ [stem q @ ''.jpg''] \<noteq> butlast q @ [last q]" by simp
    then have "written \<noteq> q" using w q by simp
    then show ?thesis using e False by simp
  qed
qed

lemma already_fresh_iff:
  "already_fresh w p so lo = Inr True \<longleftrightarrow>
     (\<exists>fi fs fl. map_of (files w) p = Some fi \<and> map_of (files w) so = Some fs \<and>
        map_of (files w) lo = Some fl \<and> mtime fi \<le> mtime fs \<and> mtime fi \<le> mtime fl)"
  by (auto simp: already_fresh_def exists_def st_mtime_def split: option.splits)

lemma Image_open_iff:
  "(\<exists>x. Image_open w p h = Inr x) \<longleftrightarrow>
     (\<exists>f im. map_of (files w) p = Some f \<and> content f = Picture im)"
  by (auto simp: Image_open_def split: option.splits content.splits)

lemma skipped_if_fresh:
  assumes "already_fresh w p (small_out p sd) (large_out p ld) = Inr True"
    "Image_open w p [] = Inr x"
  shows "process_image w p sd ld a b = (Skipped (name p), w)"
  using assms
  by (simp add: process_image_def process_image_try_def Let_def split: prod.splits)

lemma skippedD:
  assumes "process_image w p sd ld a b = (Skipped n, w1)"
  shows "w1 = w \<and> n = name p \<and>
         already_fresh w p (small_out p sd) (large_out p ld) = Inr True \<and>
         (\<exists>x. Image_open w p [] = Inr x)"
  using assms
  by (auto simp: process_image_def process_image_try_def Let_def
      split: sum.splits prod.splits bool.splits)

lemma iterdir_update:
  assumes "butlast k \<noteq> d"
  shows "filter (\<lambda>p. p \<noteq> [] \<and> butlast p = d) (map fst (AList.update k v al)) =
         filter (\<lambda>p. p \<noteq> [] \<and> butlast p = d) (map fst al)"
  using assms by (induction al) auto

lemma step_pres:
  assumes "process_image w q sd ld a b = (r, w1)" "\<forall>m. r \<noteq> Error (name q) m" "name q \<noteq> []"
  shows "clock w1 = clock w"
    and "butlast x \<noteq> sd \<Longrightarrow> butlast x \<noteq> ld \<Longrightarrow> map_of (files w1) x = map_of (files w) x"
    and "map_of (files w) x = Some f \<Longrightarrow>
           \<exists>f'. map_of (files w1) x = Some f' \<and> (f' = f \<or> mtime f' = clock w)"
    and "d \<noteq> sd \<Longrightarrow> d \<noteq> ld \<Longrightarrow> iterdir w1 d = iterdir w d"
    and "butlast q \<noteq> sd \<Longrightarrow> butlast q \<noteq> ld \<Longrightarrow>
           (\<forall>f. map_of (files w) q = Some f \<longrightarrow> mtime f \<le> clock w) \<Longrightarrow>
           already_fresh w1 q (small_out q sd) (large_out q ld) = Inr True \<and>
           (\<exists>y. Image_open w1 q [] = Inr y)"
proof -
  from process_image_result [OF assms(1,3)] assms(2)
  consider (skip) "r = Skipped (name q)" "w1 = w"
      "already_fresh w q (small_out q sd) (large_out q ld) = Inr True"
      "\<exists>x. Image_open w q [] = Inr x"
    | (ok) ims iml where "\<exists>x. Image_open w q [] = Inr x"
      "w1 = w\<lparr>files :=
                  AList.update (large_out q ld) \<lparr>mtime = clock w, content = Picture iml\<rparr>
                    (AList.update (small_out q sd) \<lparr>mtime = clock w, content = Picture ims\<rparr>
                       (files w))\<rparr>"
    by blast
  note c = this
  show "clock w1 = clock w" by (cases rule: c) simp_all
  show "map_of (files w1) x = map_of (files w) x" if "butlast x \<noteq> sd" "butlast x \<noteq> ld"
    using that by (cases rule: c) (auto simp: update_conv' butlast_small_out butlast_large_out)
  show "\<exists>f'. map_of (files w1) x = Some f' \<and> (f' = f \<or> mtime f' = clock w)"
    if "map_of (files w) x = Some f"
    using that by (cases rule: c) (auto simp: update_conv')
  show "iterdir w1 d = iterdir w d" if "d \<noteq> sd" "d \<noteq> ld"
    using that
    by (cases rule: c) (simp_all add: iterdir_def iterdir_update butlast_small_out butlast_large_out)
  show "already_fresh w1 q (small_out q sd) (large_out q ld) = Inr True \<and>
           (\<exists>y. Image_open w1 q [] = Inr y)"
    if "butlast q \<noteq> sd" "butlast q \<noteq> ld" "\<forall>f. map_of (files w) q = Some f \<longrightarrow> mtime f \<le> clock w"
  proof (cases rule: c)
    case skip
    then show ?thesis by simp
  next
    case ok
    from ok(1) obtain f im where f: "map_of (files w) q = Some f" "content f = Picture im"
      unfolding Image_open_iff by blast
    have q: "q \<noteq> small_out q sd" "q \<noteq> large_out q ld"
      using that(1,2) butlast_small_out [of q sd] butlast_large_out [of q ld] by auto
    have "map_of (files w1) q = Some f"
      using f(1) q by (simp add: ok(2) update_conv')
    moreover have "mtime f \<le> clock w" using that(3) f(1) by simp
    ultimately show ?thesis
      unfolding already_fresh_iff Image_open_iff using f(2)
      by (auto simp: ok(2) update_conv')
  qed
qed

subsection \<open>The loop over the files\<close>

lemma print_accepts: "\<forall>l. out l = None \<Longrightarrow> print out l = Inr ()"
  by (simp add: print_def)

lemma main_loop_skips:
  assumes "\<forall>p\<in>set ps. already_fresh w p (small_out p (small a)) (large_out p (large a)) = Inr True
             \<and> (\<exists>x. Image_open w p [] = Inr x)"
    and "\<forall>l. out l = None"
  shows "main_loop out w ps a = ((map (\<lambda>p. Skipped (name p)) ps, None), w)"
  using assms(1)
proof (induction ps)
  case Nil
  then show ?case by simp
next
  case (Cons q ps)
  then obtain x where "already_fresh w q (small_out q (small a)) (large_out q (large a)) = Inr True"
    "Image_open w q [] = Inr x" by auto
  then have "process_image w q (small a) (large a) (max_small a) (max_large a) = (Skipped (name q), w)"
    by (rule skipped_if_fresh)
  then show ?case using Cons by (simp add: print_accepts [OF assms(2)])
qed

lemma fresh_pres:
  assumes "already_fresh w q so lo = Inr True \<and> (\<exists>y. Image_open w q [] = Inr y)"
    and "map_of (files w') q = map_of (files w) q"
    and "\<forall>x f. map_of (files w) x = Some f \<longrightarrow>
           (\<exists>f'. map_of (files w') x = Some f' \<and> (f' = f \<or> mtime f' = c))"
    and "\<forall>f. map_of (files w) q = Some f \<longrightarrow> mtime f \<le> c"
  shows "already_fresh w' q so lo = Inr True \<and> (\<exists>y. Image_open w' q [] = Inr y)"
proof -
  from assms(1) obtain fi fs fl im where f: "map_of (files w) q = Some fi"
    "map_of (files w) so = Some fs" "map_of (files w) lo = Some fl"
    "mtime fi \<le> mtime fs" "mtime fi \<le> mtime fl" "content fi = Picture im"
    unfolding already_fresh_iff Image_open_iff by auto
  from assms(3) f(2) obtain fs' where s: "map_of (files w') so = Some fs'" "fs' = fs \<or> mtime fs' = c"
    by blast
  from assms(3) f(3) obtain fl' where l: "map_of (files w') lo = Some fl'" "fl' = fl \<or> mtime fl' = c"
    by blast
  have c: "mtime fi \<le> c" using assms(4) f(1) by simp
  have "mtime fi \<le> mtime fs'" using s(2) f(4) c by auto
  moreover have "mtime fi \<le> mtime fl'" using l(2) f(5) c by auto
  ultimately show ?thesis
    unfolding already_fresh_iff Image_open_iff using f(1,6) s(1) l(1) assms(2) by auto
qed

lemma main_loop_step:
  assumes "process_image w p (small a) (large a) (max_small a) (max_large a) = (r, w1)"
    and "main_loop out w1 ps a = ((rs, x), w2)"
  shows "out (Report r) = None \<Longrightarrow> main_loop out w (p # ps) a = ((r # rs, x), w2)"
    and "out (Report r) = Some msg \<Longrightarrow> main_loop out w (p # ps) a = (([], Some (Exception msg)), w1)"
  using assms by (simp_all add: print_def)

lemma main_loop_pres:
  assumes "main_loop out w ps a = ((rs, None), w')" "\<forall>n m. Error n m \<notin> set rs"
    "\<forall>p\<in>set ps. name p \<noteq> [] \<and> butlast p \<noteq> small a \<and> butlast p \<noteq> large a \<and>
       (\<forall>f. map_of (files w) p = Some f \<longrightarrow> mtime f \<le> clock w)"
  shows "clock w' = clock w \<and>
    (\<forall>x. butlast x \<noteq> small a \<longrightarrow> butlast x \<noteq> large a \<longrightarrow> map_of (files w') x = map_of (files w) x) \<and>
    (\<forall>x f. map_of (files w) x = Some f \<longrightarrow>
       (\<exists>f'. map_of (files w') x = Some f' \<and> (f' = f \<or> mtime f' = clock w))) \<and>
    (\<forall>d. d \<noteq> small a \<longrightarrow> d \<noteq> large a \<longrightarrow> iterdir w' d = iterdir w d) \<and>
    (\<forall>p\<in>set ps. already_fresh w' p (small_out p (small a)) (large_out p (large a)) = Inr True
        \<and> (\<exists>y. Image_open w' p [] = Inr y))"
  using assms
proof (induction ps arbitrary: w rs w')
  case Nil
  then show ?case by simp
next
  case (Cons q ps)
  obtain r w1 where st: "process_image w q (small a) (large a) (max_small a) (max_large a) = (r, w1)"
    by fastforce
  obtain rs' x w2 where lp0: "main_loop out w1 ps a = ((rs', x), w2)"
    by (metis surj_pair)
  have pr: "out (Report r) = None"
  proof (cases "out (Report r)")
    case None
    then show ?thesis .
  next
    case (Some msg)
    from main_loop_step(2) [OF st lp0 Some] Cons.prems(1) show ?thesis by simp
  qed
  from main_loop_step(1) [OF st lp0 pr] Cons.prems(1)
  have e: "rs = r # rs'" "x = None" "w' = w2" by simp_all
  have lp: "main_loop out w1 ps a = ((rs', None), w2)" using lp0 e(2) by simp
  have ne: "\<forall>m. r \<noteq> Error (name q) m" using Cons.prems(2) e(1) by auto
  have q: "name q \<noteq> []" "butlast q \<noteq> small a" "butlast q \<noteq> large a"
    "\<forall>f. map_of (files w) q = Some f \<longrightarrow> mtime f \<le> clock w"
    using Cons.prems(3) by simp_all
  note sp = step_pres [OF st ne q(1)]
  have h3: "\<forall>p\<in>set ps. name p \<noteq> [] \<and> butlast p \<noteq> small a \<and> butlast p \<noteq> large a \<and>
       (\<forall>f. map_of (files w1) p = Some f \<longrightarrow> mtime f \<le> clock w1)"
    using Cons.prems(3) sp(1) sp(2) by simp
  have h2: "\<forall>n m. Error n m \<notin> set rs'" using Cons.prems(2) e(1) by simp
  note ih = Cons.IH [OF lp h2 h3]
  have a1: "clock w2 = clock w" using ih sp(1) by simp
  have a2: "\<forall>x. butlast x \<noteq> small a \<longrightarrow> butlast x \<noteq> large a \<longrightarrow>
              map_of (files w2) x = map_of (files w) x"
    using ih sp(2) by simp
  have a3: "\<forall>x f. map_of (files w) x = Some f \<longrightarrow>
       (\<exists>f'. map_of (files w2) x = Some f' \<and> (f' = f \<or> mtime f' = clock w))"
  proof (intro allI impI)
    fix x f assume "map_of (files w) x = Some f"
    from sp(3) [OF this] obtain f1 where f1: "map_of (files w1) x = Some f1"
      "f1 = f \<or> mtime f1 = clock w" by blast
    from ih f1(1) obtain f2 where "map_of (files w2) x = Some f2"
      "f2 = f1 \<or> mtime f2 = clock w1" by blast
    then show "\<exists>f'. map_of (files w2) x = Some f' \<and> (f' = f \<or> mtime f' = clock w)"
      using f1(2) sp(1) by auto
  qed
  have a4: "\<forall>d. d \<noteq> small a \<longrightarrow> d \<noteq> large a \<longrightarrow> iterdir w2 d = iterdir w d"
    using ih sp(4) by simp
  have f1: "already_fresh w1 q (small_out q (small a)) (large_out q (large a)) = Inr True \<and>
           (\<exists>y. Image_open w1 q [] = Inr y)"
    using sp(5) [OF q(2,3,4)] .
  have "already_fresh w2 q (small_out q (small a)) (large_out q (large a)) = Inr True \<and>
           (\<exists>y. Image_open w2 q [] = Inr y)"
  proof (rule fresh_pres [OF f1, where c = "clock w1"])
    show "map_of (files w2) q = map_of (files w1) q" using ih q(2,3) by simp
    show "\<forall>x f. map_of (files w1) x = Some f \<longrightarrow>
           (\<exists>f'. map_of (files w2) x = Some f' \<and> (f' = f \<or> mtime f' = clock w1))"
      using ih by simp
    show "\<forall>f. map_of (files w1) q = Some f \<longrightarrow> mtime f \<le> clock w1"
      using q(4) sp(1) sp(2) [OF q(2,3)] by simp
  qed
  then show ?case using a1 a2 a3 a4 ih e(3) by simp
qed

lemma count_skipped:
  "foldl count_kind r (map (\<lambda>p. Skipped (name p)) ps) = r\<lparr>skipped := skipped r + length ps\<rparr>"
  by (induction ps arbitrary: r) simp_all

lemma iterdir_butlast: "p \<in> set (iterdir w d) \<Longrightarrow> butlast p = d"
  by (simp add: iterdir_def)

lemma scan_set: "p \<in> set (scan w d) \<Longrightarrow> butlast p = d \<and> name p \<noteq> []"
  by (auto simp: scan_def iterdir_butlast is_image_name)

lemma process_image_file_name:
  "file_name (fst (process_image w p sd ld a b)) = name p"
  by (auto simp: process_image_def process_image_try_def Let_def
      split: sum.splits prod.splits bool.splits)

lemma main_loop_printed:
  assumes "\<forall>l. out l = None"
  shows "map file_name (fst (fst (main_loop out w ps a))) = map name ps \<and>
         snd (fst (main_loop out w ps a)) = None"
proof (induction ps arbitrary: w)
  case Nil
  show ?case by simp
next
  case (Cons p ps)
  obtain r w1 where st: "process_image w p (small a) (large a) (max_small a) (max_large a) = (r, w1)"
    by fastforce
  obtain rs x w2 where lp: "main_loop out w1 ps a = ((rs, x), w2)"
    by (metis surj_pair)
  have "main_loop out w (p # ps) a = ((r # rs, x), w2)"
    using main_loop_step(1) [OF st lp] assms by simp
  moreover have "file_name r = name p" using process_image_file_name [of w p "small a" "large a" "max_small a" "max_large a"] st
    by simp
  ultimately show ?case using Cons.IH [of w1] lp by simp
qed

lemma st_mtime_clock: "st_mtime (w\<lparr>clock := t\<rparr>) = st_mtime w"
  by (simp add: fun_eq_iff st_mtime_def)

lemma exists_clock: "exists (w\<lparr>clock := t\<rparr>) = exists w"
  by (simp add: fun_eq_iff exists_def)

lemma already_fresh_clock: "already_fresh (w\<lparr>clock := t\<rparr>) = already_fresh w"
  unfolding fun_eq_iff already_fresh_def st_mtime_clock exists_clock by simp

lemma Image_open_clock: "Image_open (w\<lparr>clock := t\<rparr>) = Image_open w"
  by (simp add: fun_eq_iff Image_open_def)

lemma scan_clock: "scan (w\<lparr>clock := t\<rparr>) = scan w"
  by (simp add: fun_eq_iff scan_def iterdir_def is_file_def exists_clock)

subsection \<open>Unfolding the definitions on concrete inputs\<close>

lemmas path_eval = small_out_def large_out_def joinpath_def stem_def out_ext_def suffix_def
  name_def lower_def lower_char_def Let_def

lemmas image_eval = resize_fit_def Image_copy_def thumbnail_def preserve_aspect_ratio_def
  round_aspect_def Image_resize_def exif_transpose_def convert_mode_def Image_convert_def

lemmas world_eval = process_image_def process_image_try_def Image_open_def already_fresh_def
  exists_def st_mtime_def save_image_def Image_save_def with_suffix_def

lemmas main_eval = main_def scan_def iterdir_def is_file_def is_image_def default_args_def
  print_def terminal_def closed_pipe_def

section \<open>The claims of the specification\<close>

subsection \<open>C1: fresh outputs are skipped\<close>

text \<open>
  Claim C1. For every source file whose two computed output paths both exist and both have
  a modification time not older than the source's, \<^verbatim>\<open>process_image\<close> returns a
  skipped outcome; equal timestamps count as fresh.

  The script opens and transposes the source before it looks at the outputs, so the claim
  holds for a source that decodes: then the outcome is skipped and the world is as it was.
\<close>

theorem fresh_outputs_skipped:
  assumes "map_of (files w) in_path = Some fi" "content fi = Picture im"
    and "map_of (files w) (small_out in_path small_dir) = Some fs"
    and "map_of (files w) (large_out in_path large_dir) = Some fl"
    and "mtime fi \<le> mtime fs" "mtime fi \<le> mtime fl"
  shows "process_image w in_path small_dir large_dir a b =
           (Skipped (name in_path), w)"
proof -
  have "already_fresh w in_path (small_out in_path small_dir) (large_out in_path large_dir) = Inr True"
    unfolding already_fresh_iff using assms by blast
  moreover have "\<exists>x. Image_open w in_path [] = Inr x"
    unfolding Image_open_iff using assms(1,2) by blast
  ultimately show ?thesis using skipped_if_fresh by blast
qed

theorem fresh_outputs_skipped_witness:
  "process_image kept_world [''images'', ''a.jpg''] [''images'', ''small''] [''images'', ''large'']
     1200 2400 = (Skipped ''a.jpg'', kept_world)"
proof -
  have 1: "map_of (files kept_world) [''images'', ''a.jpg''] = Some \<lparr>mtime = 5, content = Picture photo\<rparr>"
    by (simp add: kept_world_def)
  have 2: "content \<lparr>mtime = 5, content = Picture photo\<rparr> = Picture photo" by simp
  have 3: "map_of (files kept_world) (small_out [''images'', ''a.jpg''] [''images'', ''small'']) =
             Some \<lparr>mtime = 7, content = Picture photo\<rparr>"
    by (simp add: kept_world_def path_eval)
  have 4: "map_of (files kept_world) (large_out [''images'', ''a.jpg''] [''images'', ''large'']) =
             Some \<lparr>mtime = 5, content = Picture photo\<rparr>"
    by (simp add: kept_world_def path_eval)
  have 5: "mtime \<lparr>mtime = 5, content = Picture photo\<rparr> \<le> mtime \<lparr>mtime = 7, content = Picture photo\<rparr>"
    by simp
  have 6: "mtime \<lparr>mtime = 5, content = Picture photo\<rparr> \<le> mtime \<lparr>mtime = 5, content = Picture photo\<rparr>"
    by simp
  show ?thesis using fresh_outputs_skipped [OF 1 2 3 4 5 6, of 1200 2400] by (simp add: name_def)
qed

text \<open>
  Without that condition the claim fails: for a source that cannot be decoded the
  exception of \<^verbatim>\<open>Image.open\<close> comes first, and the outcome is an error although both
  outputs exist and are not older than the source.
\<close>

theorem broken_source_not_skipped:
  "st_mtime stale_world [''images'', ''c.jpg''] = Inr 5 \<and>
   st_mtime stale_world (small_out [''images'', ''c.jpg''] [''images'', ''small'']) = Inr 7 \<and>
   st_mtime stale_world (large_out [''images'', ''c.jpg''] [''images'', ''large'']) = Inr 5 \<and>
   process_image stale_world [''images'', ''c.jpg''] [''images'', ''small''] [''images'', ''large'']
     1200 2400 = (Error ''c.jpg'' ''cannot identify image file'', stale_world)"
  by (simp add: world_eval path_eval stale_world_def)

subsection \<open>C2: exceptions become error outcomes\<close>

text \<open>
  Claim C2. \<^verbatim>\<open>process_image\<close> never raises: an exception raised while opening,
  transforming or saving the file is caught and becomes an error outcome with the name of
  the file and the message of the exception, and the loop of \<^verbatim>\<open>main\<close> goes on with
  the remaining files.

  \<open>process_image\<close> is a total function into outcomes, and every exception of its body
  becomes the error outcome with the name of the file and the message: whatever leaves
  the \<^verbatim>\<open>try\<close>, and so an exception of \<^verbatim>\<open>Image.open\<close>, of the first or the second
  \<^verbatim>\<open>resize_fit\<close>, of the first or the second \<^verbatim>\<open>save_image\<close>, each with the world as
  the exception left it. The loop prints the outcome outside the \<^verbatim>\<open>try\<close>: when the
  standard output takes that line, the loop goes on with the remaining files from the
  world the call left, whatever the outcome was; when it takes every line, the loop ends
  without an exception and has printed one outcome per file, in order and under the
  file's name.
\<close>

theorem exceptions_become_error_outcomes:
  "(process_image_try w p sd ld a b = (Inl e, w') \<longrightarrow>
      process_image w p sd ld a b = (Error (name p) (message e), w')) \<and>
   (Image_open w p [] = Inl e \<longrightarrow>
      process_image w p sd ld a b = (Error (name p) (message e), w)) \<and>
   (Image_open w p [] = Inr (h0, opened) \<and> exif_transpose h0 opened = (h1, im0) \<and>
    already_fresh w p (small_out p sd) (large_out p ld) = Inr False \<longrightarrow>
      (resize_fit h1 im0 a = Inl e \<longrightarrow>
         process_image w p sd ld a b = (Error (name p) (message e), w)) \<and>
      (resize_fit h1 im0 a = Inr (h2, small_im) \<and> resize_fit h2 im0 b = Inl e \<longrightarrow>
         process_image w p sd ld a b = (Error (name p) (message e), w)) \<and>
      (resize_fit h1 im0 a = Inr (h2, small_im) \<and> resize_fit h2 im0 b = Inr (h3, large_im) \<longrightarrow>
         (save_image w h3 small_im (small_out p sd) = (Inl e, w1) \<longrightarrow>
            process_image w p sd ld a b = (Error (name p) (message e), w1)) \<and>
         (save_image w h3 small_im (small_out p sd) = (Inr written, w1) \<and>
          save_image w1 h3 large_im (large_out p ld) = (Inl e, w2) \<longrightarrow>
            process_image w p sd ld a b = (Error (name p) (message e), w2)))) \<and>
   (out (Report (fst (process_image w p (small args) (large args) (max_small args) (max_large args))))
      = None \<longrightarrow>
    fst (fst (main_loop out w (p # imgs) args)) =
      fst (process_image w p (small args) (large args) (max_small args) (max_large args)) #
      fst (fst (main_loop out
             (snd (process_image w p (small args) (large args) (max_small args) (max_large args)))
             imgs args))) \<and>
   ((\<forall>l. out l = None) \<longrightarrow>
      map file_name (fst (fst (main_loop out w imgs args))) = map name imgs \<and>
      snd (fst (main_loop out w imgs args)) = None)"
proof -
  have 1: "process_image_try w p sd ld a b = (Inl e, w') \<longrightarrow>
      process_image w p sd ld a b = (Error (name p) (message e), w')"
    by (simp add: process_image_def)
  have 2: "Image_open w p [] = Inl e \<longrightarrow>
      process_image w p sd ld a b = (Error (name p) (message e), w)"
    by (simp add: process_image_def process_image_try_def)
  have 3: "Image_open w p [] = Inr (h0, opened) \<and> exif_transpose h0 opened = (h1, im0) \<and>
        already_fresh w p (small_out p sd) (large_out p ld) = Inr False \<longrightarrow>
      (resize_fit h1 im0 a = Inl e \<longrightarrow>
         process_image w p sd ld a b = (Error (name p) (message e), w)) \<and>
      (resize_fit h1 im0 a = Inr (h2, small_im) \<and> resize_fit h2 im0 b = Inl e \<longrightarrow>
         process_image w p sd ld a b = (Error (name p) (message e), w)) \<and>
      (resize_fit h1 im0 a = Inr (h2, small_im) \<and> resize_fit h2 im0 b = Inr (h3, large_im) \<longrightarrow>
         (save_image w h3 small_im (small_out p sd) = (Inl e, w1) \<longrightarrow>
            process_image w p sd ld a b = (Error (name p) (message e), w1)) \<and>
         (save_image w h3 small_im (small_out p sd) = (Inr written, w1) \<and>
          save_image w1 h3 large_im (large_out p ld) = (Inl e, w2) \<longrightarrow>
            process_image w p sd ld a b = (Error (name p) (message e), w2)))"
    by (simp add: process_image_def process_image_try_def)
  have 4: "out (Report (fst (process_image w p (small args) (large args) (max_small args) (max_large args))))
      = None \<longrightarrow>
    fst (fst (main_loop out w (p # imgs) args)) =
      fst (process_image w p (small args) (large args) (max_small args) (max_large args)) #
      fst (fst (main_loop out
             (snd (process_image w p (small args) (large args) (max_small args) (max_large args)))
             imgs args))"
    by (simp add: print_def split_beta)
  have 5: "(\<forall>l. out l = None) \<longrightarrow>
      map file_name (fst (fst (main_loop out w imgs args))) = map name imgs \<and>
      snd (fst (main_loop out w imgs args)) = None"
    using main_loop_printed by blast
  show ?thesis by (rule conjI [OF 1 conjI [OF 2 conjI [OF 3 conjI [OF 4 5]]]])
qed

theorem exceptions_become_error_outcomes_witness:
  "process_image corrupt_world [''images'', ''c.jpg''] [''images'', ''small''] [''images'', ''large'']
     1200 2400 = (Error ''c.jpg'' ''cannot identify image file'', corrupt_world) \<and>
   process_image gallery [''images'', ''a.jpg''] [''images'', ''small''] [''images'', ''large'']
     0 2400 = (Error ''a.jpg'' ''division by zero'', gallery) \<and>
   process_image gallery [''images'', ''a.jpg''] [''images'', ''small''] [''images'', ''large'']
     1200 0 = (Error ''a.jpg'' ''division by zero'', gallery) \<and>
   fst (process_image full_disk [''images'', ''b.png''] [''images'', ''small''] [''images'', ''large'']
     1200 2400) = Error ''b.png'' ''No space left on device'' \<and>
   fst (process_image full_disk [''images'', ''a.jpg''] [''images'', ''small''] [''images'', ''large'']
     1200 2400) = Error ''a.jpg'' ''No space left on device'' \<and>
   fst (main_loop terminal corrupt_world [[''images'', ''c.jpg''], [''images'', ''a.jpg'']] default_args) =
     ([Error ''c.jpg'' ''cannot identify image file'', Ok ''a.jpg'' ''a.jpg'' ''a.jpg''], None) \<and>
   map file_name (fst (fst (main_loop terminal corrupt_world
       [[''images'', ''c.jpg''], [''images'', ''a.jpg'']] default_args))) = [''c.jpg'', ''a.jpg'']"
proof -
  let ?sd = "[''images'', ''small'']" and ?ld = "[''images'', ''large'']"
  let ?a = "[''images'', ''a.jpg'']" and ?b = "[''images'', ''b.png'']" and ?c = "[''images'', ''c.jpg'']"
  let ?small = "photo\<lparr>width := 1200, height := 800, pixels := Resampled (Decoded 0) 1200 800\<rparr>"
  let ?large = "photo\<lparr>width := 2400, height := 1600, pixels := Resampled (Decoded 0) 2400 1600\<rparr>"
  note T = exceptions_become_error_outcomes
  \<comment> \<open>opening raises\<close>
  have o: "Image_open corrupt_world ?c [] = Inl (Exception ''cannot identify image file'')"
    by (simp add: Image_open_def corrupt_world_def)
  have t: "process_image_try corrupt_world ?c ?sd ?ld 1200 2400 =
             (Inl (Exception ''cannot identify image file''), corrupt_world)"
    by (simp add: process_image_try_def o)
  have w1: "process_image corrupt_world ?c ?sd ?ld 1200 2400 =
              (Error ''c.jpg'' ''cannot identify image file'', corrupt_world)"
    using T [where w = corrupt_world and p = ?c and sd = ?sd and ld = ?ld and a = 1200 and b = 2400
        and e = "Exception ''cannot identify image file''" and w' = corrupt_world] o t
    by (simp add: name_def)
  \<comment> \<open>the source opens and its outputs are missing\<close>
  have go: "Image_open gallery ?a [] = Inr ([photo], 0)"
    by (simp add: Image_open_def gallery_def)
  have ex: "exif_transpose [photo] 0 = ([photo, photo], 1)"
    by (simp add: exif_transpose_def Image_copy_def Let_def photo_def)
  have gf: "already_fresh gallery ?a (small_out ?a ?sd) (large_out ?a ?ld) = Inr False"
    by (simp add: already_fresh_def exists_def gallery_def path_eval)
  \<comment> \<open>the first resize raises\<close>
  have r1: "resize_fit [photo, photo] 1 0 = Inl (Exception ''division by zero'')"
    by (simp add: image_eval photo_def)
  have w2: "process_image gallery ?a ?sd ?ld 0 2400 = (Error ''a.jpg'' ''division by zero'', gallery)"
    using T [where w = gallery and p = ?a and sd = ?sd and ld = ?ld and a = 0 and b = 2400
        and e = "Exception ''division by zero''" and ?h0.0 = "[photo]" and opened = 0
        and ?h1.0 = "[photo, photo]" and ?im0.0 = 1] go ex gf r1
    by (simp add: name_def)
  \<comment> \<open>the second resize raises\<close>
  have r2: "resize_fit [photo, photo] 1 1200 = Inr ([photo, photo, ?small], 2)"
    by (simp add: image_eval photo_def)
  have r3: "resize_fit [photo, photo, ?small] 1 0 = Inl (Exception ''division by zero'')"
    by (simp add: image_eval photo_def)
  have w3: "process_image gallery ?a ?sd ?ld 1200 0 = (Error ''a.jpg'' ''division by zero'', gallery)"
    using T [where w = gallery and p = ?a and sd = ?sd and ld = ?ld and a = 1200 and b = 0
        and e = "Exception ''division by zero''" and ?h0.0 = "[photo]" and opened = 0
        and ?h1.0 = "[photo, photo]" and ?im0.0 = 1 and ?h2.0 = "[photo, photo, ?small]"
        and small_im = 2] go ex gf r2 r3
    by (simp add: name_def)
  \<comment> \<open>saving the small output raises\<close>
  have fo: "Image_open full_disk ?b [] = Inr ([icon], 0)"
    by (simp add: Image_open_def full_disk_def)
  have fx: "exif_transpose [icon] 0 = ([icon, icon], 1)"
    by (simp add: exif_transpose_def Image_copy_def Let_def icon_def)
  have ff: "already_fresh full_disk ?b (small_out ?b ?sd) (large_out ?b ?ld) = Inr False"
    by (simp add: already_fresh_def exists_def full_disk_def path_eval)
  have i1: "resize_fit [icon, icon] 1 1200 = Inr ([icon, icon, icon], 2)"
    by (simp add: image_eval icon_def)
  have i2: "resize_fit [icon, icon, icon] 1 2400 = Inr ([icon, icon, icon, icon], 3)"
    by (simp add: image_eval icon_def)
  have s1: "fst (save_image full_disk [icon, icon, icon, icon] 2 (small_out ?b ?sd)) =
              Inl (Exception ''No space left on device'')"
    by (simp add: save_image_def Image_save_def full_disk_def path_eval split_beta)
  then have s1': "save_image full_disk [icon, icon, icon, icon] 2 (small_out ?b ?sd) =
      (Inl (Exception ''No space left on device''),
       snd (save_image full_disk [icon, icon, icon, icon] 2 (small_out ?b ?sd)))"
    by (simp add: prod_eq_iff)
  have w4: "fst (process_image full_disk ?b ?sd ?ld 1200 2400) = Error ''b.png'' ''No space left on device''"
    using T [where w = full_disk and p = ?b and sd = ?sd and ld = ?ld and a = 1200 and b = 2400
        and e = "Exception ''No space left on device''" and ?h0.0 = "[icon]" and opened = 0
        and ?h1.0 = "[icon, icon]" and ?im0.0 = 1 and ?h2.0 = "[icon, icon, icon]"
        and small_im = 2 and ?h3.0 = "[icon, icon, icon, icon]" and large_im = 3
        and ?w1.0 = "snd (save_image full_disk [icon, icon, icon, icon] 2 (small_out ?b ?sd))"]
      fo fx ff i1 i2 s1'
    by (simp add: name_def)
  \<comment> \<open>saving the large output raises\<close>
  have ao: "Image_open full_disk ?a [] = Inr ([photo], 0)"
    by (simp add: Image_open_def full_disk_def)
  have af: "already_fresh full_disk ?a (small_out ?a ?sd) (large_out ?a ?ld) = Inr False"
    by (simp add: already_fresh_def exists_def full_disk_def path_eval)
  have r4: "resize_fit [photo, photo, ?small] 1 2400 = Inr ([photo, photo, ?small, ?large], 3)"
    by (simp add: image_eval photo_def)
  have s2: "fst (save_image full_disk [photo, photo, ?small, ?large] 2 (small_out ?a ?sd)) =
              Inr [''images'', ''small'', ''a.jpg'']"
    by (simp add: save_image_def Image_save_def convert_mode_def full_disk_def photo_def path_eval
        split_beta)
  then have s2': "save_image full_disk [photo, photo, ?small, ?large] 2 (small_out ?a ?sd) =
      (Inr [''images'', ''small'', ''a.jpg''],
       snd (save_image full_disk [photo, photo, ?small, ?large] 2 (small_out ?a ?sd)))"
    by (simp add: prod_eq_iff)
  have s3: "fst (save_image (snd (save_image full_disk [photo, photo, ?small, ?large] 2 (small_out ?a ?sd)))
                   [photo, photo, ?small, ?large] 3 (large_out ?a ?ld)) =
              Inl (Exception ''No space left on device'')"
    by (simp add: save_image_def Image_save_def convert_mode_def full_disk_def photo_def path_eval
        split_beta)
  then have s3': "save_image (snd (save_image full_disk [photo, photo, ?small, ?large] 2 (small_out ?a ?sd)))
                   [photo, photo, ?small, ?large] 3 (large_out ?a ?ld) =
      (Inl (Exception ''No space left on device''),
       snd (save_image (snd (save_image full_disk [photo, photo, ?small, ?large] 2 (small_out ?a ?sd)))
                   [photo, photo, ?small, ?large] 3 (large_out ?a ?ld)))"
    by (simp add: prod_eq_iff)
  have w5: "fst (process_image full_disk ?a ?sd ?ld 1200 2400) = Error ''a.jpg'' ''No space left on device''"
    using T [where w = full_disk and p = ?a and sd = ?sd and ld = ?ld and a = 1200 and b = 2400
        and e = "Exception ''No space left on device''" and ?h0.0 = "[photo]" and opened = 0
        and ?h1.0 = "[photo, photo]" and ?im0.0 = 1 and ?h2.0 = "[photo, photo, ?small]"
        and small_im = 2 and ?h3.0 = "[photo, photo, ?small, ?large]" and large_im = 3
        and written = "[''images'', ''small'', ''a.jpg'']"
        and ?w1.0 = "snd (save_image full_disk [photo, photo, ?small, ?large] 2 (small_out ?a ?sd))"
        and ?w2.0 = "snd (save_image (snd (save_image full_disk [photo, photo, ?small, ?large] 2 (small_out ?a ?sd)))
                   [photo, photo, ?small, ?large] 3 (large_out ?a ?ld))"]
      ao ex af r2 r4 s2' s3'
    by (simp add: name_def)
  \<comment> \<open>the loop goes on after the error\<close>
  have q: "\<forall>l. terminal l = None" by (simp add: terminal_def)
  have ml: "fst (main_loop terminal corrupt_world [?c, ?a] default_args) =
     ([Error ''c.jpg'' ''cannot identify image file'', Ok ''a.jpg'' ''a.jpg'' ''a.jpg''], None)"
    by (simp add: main_eval world_eval image_eval path_eval corrupt_world_def photo_def)
  have w6: "map file_name (fst (fst (main_loop terminal corrupt_world [?c, ?a] default_args))) =
              [''c.jpg'', ''a.jpg'']"
    using T [where out = terminal and w = corrupt_world and imgs = "[?c, ?a]" and args = default_args] q
    by (simp add: name_def del: main_loop.simps)
  show ?thesis using w1 w2 w3 w4 w5 ml w6 by (intro conjI)
qed

text \<open>
  Without a standard output that takes the line the loop does not go on: the exception
  of \<^verbatim>\<open>print\<close> is not caught, the run ends at the first file, and the photograph
  after the file that cannot be decoded is never processed.
\<close>

theorem print_failure_stops_loop:
  "fst (process_image corrupt_world [''images'', ''c.jpg''] [''images'', ''small''] [''images'', ''large'']
     1200 2400) = Error ''c.jpg'' ''cannot identify image file'' \<and>
   main closed_pipe corrupt_world default_args = (([], Inl (Exception ''Broken pipe'')), corrupt_world) \<and>
   \<not> exists (snd (main closed_pipe corrupt_world default_args)) [''images'', ''small'', ''a.jpg''] \<and>
   exists (snd (main terminal corrupt_world default_args)) [''images'', ''small'', ''a.jpg'']"
  by (simp add: main_eval world_eval image_eval path_eval corrupt_world_def photo_def)

subsection \<open>C3: the longest edge after resizing\<close>

text \<open>
  Claim C3. For every image and every maximum pixel dimension \<open>N\<close>, \<^verbatim>\<open>resize_fit\<close>
  returns an image whose longest edge is at most \<open>N\<close>, with the aspect ratio preserved
  within one pixel of rounding on the shorter edge.

  This holds for \<open>N \<ge> 1\<close> and an image with positive width and height: the call returns,
  both edges of the result are at most \<open>N\<close>, an image that already fits keeps its
  dimensions, and otherwise the longer edge becomes \<open>N\<close> and the other edge is less than
  one pixel away from the exactly proportional value.
\<close>

theorem resize_fit_bounds:
  assumes "r < length h" "1 \<le> n" "0 < width (h ! r)" "0 < height (h ! r)"
  shows "\<exists>h' s. resize_fit h r n = Inr (h', s) \<and>
     int (width (h' ! s)) \<le> n \<and> int (height (h' ! s)) \<le> n \<and>
     (if int (width (h ! r)) \<le> n \<and> int (height (h ! r)) \<le> n
        then width (h' ! s) = width (h ! r) \<and> height (h' ! s) = height (h ! r)
      else if width (h ! r) \<le> height (h ! r)
        then int (height (h' ! s)) = n \<and>
             \<bar>rat_of_nat (width (h' ! s)) -
                rat_of_int n * rat_of_nat (width (h ! r)) / rat_of_nat (height (h ! r))\<bar> < 1
      else int (width (h' ! s)) = n \<and>
             \<bar>rat_of_nat (height (h' ! s)) -
                rat_of_int n * rat_of_nat (height (h ! r)) / rat_of_nat (width (h ! r))\<bar> < 1)"
proof (cases "int (width (h ! r)) \<le> n \<and> int (height (h ! r)) \<le> n")
  case True
  then show ?thesis using resize_fit_within [OF assms(1)] by simp
next
  case False
  note big = this
  show ?thesis
  proof (cases "width (h ! r) \<le> height (h ! r)")
    case True
    then have "n < int (height (h ! r))" using big by linarith
    from resize_fit_portrait [OF assms True this]
    obtain x im where x: "resize_fit h r n = Inr (h @ [im], length h)" "1 \<le> x" "x \<le> n"
      "\<bar>rat_of_int x - rat_of_int n * rat_of_nat (width (h ! r)) / rat_of_nat (height (h ! r))\<bar> < 1"
      "im = (h ! r)\<lparr>width := nat x, height := nat n,
                         pixels := Resampled (pixels (h ! r)) (nat x) (nat n)\<rparr>"
      by blast
    have "rat_of_nat (nat x) = rat_of_int x" using x(2) by simp
    then show ?thesis unfolding if_not_P [OF big] if_P [OF True] using x assms(2) by simp
  next
    case False
    then have l: "height (h ! r) < width (h ! r)" by simp
    then have "n < int (width (h ! r))" using big by linarith
    from resize_fit_landscape [OF assms l this]
    obtain y im where y: "resize_fit h r n = Inr (h @ [im], length h)" "1 \<le> y" "y \<le> n"
      "\<bar>rat_of_int y - rat_of_int n * rat_of_nat (height (h ! r)) / rat_of_nat (width (h ! r))\<bar> < 1"
      "im = (h ! r)\<lparr>width := nat n, height := nat y,
                         pixels := Resampled (pixels (h ! r)) (nat n) (nat y)\<rparr>"
      by blast
    have "rat_of_nat (nat y) = rat_of_int y" using y(2) by simp
    then show ?thesis unfolding if_not_P [OF big] if_not_P [OF False] using y assms(2) by simp
  qed
qed

theorem resize_fit_bounds_witness:
  "\<exists>h' s. resize_fit [photo] 0 1200 = Inr (h', s) \<and>
     int (width (h' ! s)) \<le> 1200 \<and> int (height (h' ! s)) \<le> 1200 \<and>
     int (width (h' ! s)) = 1200 \<and> \<bar>rat_of_nat (height (h' ! s)) - 800\<bar> < 1"
  using resize_fit_bounds [of 0 "[photo]" 1200] by (simp add: photo_def)

text \<open>
  For \<open>N = 0\<close> the call does not return an image: \<^verbatim>\<open>thumbnail\<close> divides the
  requested width by the requested height.
\<close>

theorem resize_fit_zero_raises:
  "resize_fit [dot] 0 0 = Inl (Exception ''division by zero'')"
  by (simp add: image_eval dot_def)

subsection \<open>C4: the extension of the outputs\<close>

text \<open>
  Claim C4. For a source whose extension, compared without case, is not one of .jpg, .jpeg,
  .png, .webp, both outputs are written with extension .jpg; for a supported extension the
  output extension equals the input extension; and \<^verbatim>\<open>save_image\<close> returns the path it
  wrote, which differs from the path it was given exactly when the fallback triggers.

  For a source with a name, both output paths carry the extension \<open>out_ext\<close>: .jpg for an
  unsupported extension, and the lower-cased input extension for a supported one. A
  successful \<open>process_image\<close> reports the names of these two paths and both exist
  afterwards. \<open>save_image\<close> returns a path that exists afterwards, and it differs from
  the given path exactly when the lower-cased extension of the given path is unsupported.
\<close>

theorem output_extension:
  assumes "name in_path \<noteq> []"
  shows "suffix (small_out in_path small_dir) = out_ext in_path \<and>
         suffix (large_out in_path large_dir) = out_ext in_path \<and>
         (lower (suffix in_path) \<notin> {''.jpg'', ''.jpeg'', ''.png'', ''.webp''} \<longrightarrow>
            out_ext in_path = ''.jpg'') \<and>
         (lower (suffix in_path) \<in> {''.jpg'', ''.jpeg'', ''.png'', ''.webp''} \<longrightarrow>
            out_ext in_path = lower (suffix in_path)) \<and>
         (process_image w in_path small_dir large_dir a b = (Ok n s l, w1) \<longrightarrow>
            s = name (small_out in_path small_dir) \<and> l = name (large_out in_path large_dir) \<and>
            exists w1 (small_out in_path small_dir) \<and> exists w1 (large_out in_path large_dir)) \<and>
         (save_image w2 h img out_path = (Inr written, w3) \<longrightarrow>
            exists w3 written \<and>
            (written \<noteq> out_path \<longleftrightarrow>
               lower (suffix out_path) \<notin> {''.jpg'', ''.jpeg'', ''.png'', ''.webp''}))"
proof -
  have 1: "suffix (small_out in_path small_dir) = out_ext in_path"
    using assms by (rule suffix_small_out)
  have 2: "suffix (large_out in_path large_dir) = out_ext in_path"
    using assms by (rule suffix_large_out)
  have 3: "lower (suffix in_path) \<notin> {''.jpg'', ''.jpeg'', ''.png'', ''.webp''} \<longrightarrow>
            out_ext in_path = ''.jpg''"
    by (simp add: out_ext_def)
  have 4: "lower (suffix in_path) \<in> {''.jpg'', ''.jpeg'', ''.png'', ''.webp''} \<longrightarrow>
            out_ext in_path = lower (suffix in_path)"
    by (simp add: out_ext_def)
  have 5: "process_image w in_path small_dir large_dir a b = (Ok n s l, w1) \<longrightarrow>
            s = name (small_out in_path small_dir) \<and> l = name (large_out in_path large_dir) \<and>
            exists w1 (small_out in_path small_dir) \<and> exists w1 (large_out in_path large_dir)"
    using process_image_Ok [OF _ assms] by blast
  have 6: "save_image w2 h img out_path = (Inr written, w3) \<longrightarrow>
            exists w3 written \<and>
            (written \<noteq> out_path \<longleftrightarrow>
               lower (suffix out_path) \<notin> {''.jpg'', ''.jpeg'', ''.png'', ''.webp''})"
    using save_image_differs by blast
  show ?thesis using 1 2 3 4 5 6 by (intro conjI)
qed

theorem output_extension_witness:
  "suffix (small_out [''images'', ''scan.tiff''] [''images'', ''small'']) = ''.jpg'' \<and>
   suffix (large_out [''images'', ''scan.tiff''] [''images'', ''large'']) = ''.jpg'' \<and>
   fst (process_image camera_world [''images'', ''scan.tiff''] [''images'', ''small'']
          [''images'', ''large''] 1200 2400) = Ok ''scan.tiff'' ''scan.jpg'' ''scan.jpg'' \<and>
   exists (snd (process_image camera_world [''images'', ''scan.tiff''] [''images'', ''small'']
          [''images'', ''large''] 1200 2400)) [''images'', ''small'', ''scan.jpg''] \<and>
   fst (save_image camera_world [scan_cmyk] 0 [''out'', ''scan.tiff'']) = Inr [''out'', ''scan.jpg''] \<and>
   exists (snd (save_image camera_world [scan_cmyk] 0 [''out'', ''scan.tiff''])) [''out'', ''scan.jpg'']"
proof -
  have n: "name [''images'', ''scan.tiff''] \<noteq> []" by (simp add: name_def)
  have u: "lower (suffix [''images'', ''scan.tiff'']) \<notin> {''.jpg'', ''.jpeg'', ''.png'', ''.webp''}"
    by (simp add: path_eval)
  have p: "fst (process_image camera_world [''images'', ''scan.tiff''] [''images'', ''small'']
          [''images'', ''large''] 1200 2400) = Ok ''scan.tiff'' ''scan.jpg'' ''scan.jpg''"
    by (simp add: world_eval image_eval path_eval camera_world_def scan_cmyk_def)
  then have p2: "process_image camera_world [''images'', ''scan.tiff''] [''images'', ''small'']
          [''images'', ''large''] 1200 2400 = (Ok ''scan.tiff'' ''scan.jpg'' ''scan.jpg'',
           snd (process_image camera_world [''images'', ''scan.tiff''] [''images'', ''small'']
          [''images'', ''large''] 1200 2400))"
    by (simp add: prod_eq_iff)
  have s: "fst (save_image camera_world [scan_cmyk] 0 [''out'', ''scan.tiff'']) = Inr [''out'', ''scan.jpg'']"
    by (simp add: world_eval image_eval path_eval camera_world_def scan_cmyk_def split_beta)
  then have s2: "save_image camera_world [scan_cmyk] 0 [''out'', ''scan.tiff''] =
      (Inr [''out'', ''scan.jpg''], snd (save_image camera_world [scan_cmyk] 0 [''out'', ''scan.tiff'']))"
    by (simp add: prod_eq_iff)
  have so: "small_out [''images'', ''scan.tiff''] [''images'', ''small''] = [''images'', ''small'', ''scan.jpg'']"
    by (simp add: path_eval)
  show ?thesis
    using output_extension [OF n, of "[''images'', ''small'']" "[''images'', ''large'']"
        camera_world 1200 2400 "''scan.tiff''" "''scan.jpg''" "''scan.jpg''"
        "snd (process_image camera_world [''images'', ''scan.tiff''] [''images'', ''small'']
          [''images'', ''large''] 1200 2400)"
        camera_world "[scan_cmyk]" 0 "[''out'', ''scan.tiff'']" "[''out'', ''scan.jpg'']"
        "snd (save_image camera_world [scan_cmyk] 0 [''out'', ''scan.tiff''])"]
      u p p2 s s2
    by (simp add: path_eval)
qed

text \<open>
  The output extension is not always the input extension: an upper-case .JPG is a
  supported extension, and the outputs are written as .jpg.
\<close>

theorem upper_case_extension_lowered:
  "lower (suffix [''images'', ''IMG.JPG'']) \<in> {''.jpg'', ''.jpeg'', ''.png'', ''.webp''} \<and>
   suffix [''images'', ''IMG.JPG''] = ''.JPG'' \<and>
   suffix (small_out [''images'', ''IMG.JPG''] [''images'', ''small'']) = ''.jpg'' \<and>
   suffix (large_out [''images'', ''IMG.JPG''] [''images'', ''large'']) = ''.jpg'' \<and>
   fst (process_image camera_world [''images'', ''IMG.JPG''] [''images'', ''small'']
          [''images'', ''large''] 1200 2400) = Ok ''IMG.JPG'' ''IMG.jpg'' ''IMG.jpg''"
  by (simp add: world_eval image_eval path_eval camera_world_def photo_def)

subsection \<open>C5: mode normalisation only for JPEG\<close>

text \<open>
  Claim C5. \<^verbatim>\<open>convert_mode\<close> maps the modes P, LA, RGBA, CMYK, P;16, I;16 and L to RGB,
  and it is applied if and only if the output is encoded as JPEG, the fallback included;
  PNG and WebP outputs keep the mode of the image.

  The image that \<open>save_image\<close> writes is the converted one when the written path ends in
  .jpg or .jpeg, and the image it was given when the written path ends in .png or .webp;
  no other extension is ever written.
\<close>

theorem convert_mode_only_for_jpeg:
  "(mode (h ! img) \<in> {''P'', ''LA'', ''RGBA'', ''CMYK'', ''P;16'', ''I;16'', ''L''} \<longrightarrow>
      mode (fst (convert_mode h img) ! snd (convert_mode h img)) = ''RGB'') \<and>
   (save_image w h img out_path = (Inr written, w1) \<longrightarrow>
      (lower (suffix written) \<in> {''.jpg'', ''.jpeg''} \<or> lower (suffix written) \<in> {''.png'', ''.webp''}) \<and>
      map_of (files w1) written =
        Some \<lparr>mtime = clock w,
              content = Picture (if lower (suffix written) \<in> {''.jpg'', ''.jpeg''}
                                 then fst (convert_mode h img) ! snd (convert_mode h img)
                                 else h ! img)\<rparr>)"
proof -
  have 1: "mode (h ! img) \<in> {''P'', ''LA'', ''RGBA'', ''CMYK'', ''P;16'', ''I;16'', ''L''} \<longrightarrow>
      mode (fst (convert_mode h img) ! snd (convert_mode h img)) = ''RGB''"
    by (auto simp: convert_mode_def Image_convert_def)
  have 2: "(lower (suffix written) \<in> {''.jpg'', ''.jpeg''} \<or> lower (suffix written) \<in> {''.png'', ''.webp''}) \<and>
      map_of (files w1) written =
        Some \<lparr>mtime = clock w,
              content = Picture (if lower (suffix written) \<in> {''.jpg'', ''.jpeg''}
                                 then fst (convert_mode h img) ! snd (convert_mode h img)
                                 else h ! img)\<rparr>"
    if s: "save_image w h img out_path = (Inr written, w1)"
  proof (cases "lower (suffix out_path) \<in> {''.jpg'', ''.jpeg'', ''.png'', ''.webp''}")
    case True
    then have "written = out_path" using save_image_path(1) [OF s] by simp
    then show ?thesis using True save_image_written [OF s]
      by (auto simp: update_conv')
  next
    case False
    then have n: "name out_path \<noteq> []" using save_image_path(2) [OF s] by simp
    have wr: "written = butlast out_path @ [stem out_path @ ''.jpg'']"
      using False save_image_path(1) [OF s] by simp
    have "written = joinpath (butlast out_path) (stem out_path @ CHR ''.'' # ''jpg'')"
      using wr by (simp add: joinpath_def)
    then have "suffix written = ''.jpg''"
      using suffix_joinpath [of "stem out_path" "''jpg''" "butlast out_path"] stem_nonempty [OF n]
      by simp
    then have "lower (suffix written) = ''.jpg''" by (simp add: lower_def lower_char_def)
    then show ?thesis using False save_image_written [OF s]
      by (auto simp: update_conv')
  qed
  show ?thesis using 1 2 by blast
qed

theorem convert_mode_only_for_jpeg_witness:
  "mode (fst (convert_mode [scan_cmyk] 0) ! snd (convert_mode [scan_cmyk] 0)) = ''RGB'' \<and>
   fst (save_image camera_world [scan_cmyk] 0 [''images'', ''small'', ''scan.jpg'']) =
     Inr [''images'', ''small'', ''scan.jpg''] \<and>
   map_of (files (snd (save_image camera_world [scan_cmyk] 0 [''images'', ''small'', ''scan.jpg''])))
     [''images'', ''small'', ''scan.jpg''] =
     Some \<lparr>mtime = 10, content = Picture (scan_cmyk\<lparr>mode := ''RGB'',
             pixels := Converted (Decoded 3) ''RGB''\<rparr>)\<rparr>"
proof -
  have m: "mode ([scan_cmyk] ! 0) \<in> {''P'', ''LA'', ''RGBA'', ''CMYK'', ''P;16'', ''I;16'', ''L''}"
    by (simp add: scan_cmyk_def)
  have s: "fst (save_image camera_world [scan_cmyk] 0 [''images'', ''small'', ''scan.jpg'']) =
     Inr [''images'', ''small'', ''scan.jpg'']"
    by (simp add: world_eval image_eval path_eval camera_world_def scan_cmyk_def split_beta)
  then have s2: "save_image camera_world [scan_cmyk] 0 [''images'', ''small'', ''scan.jpg''] =
     (Inr [''images'', ''small'', ''scan.jpg''],
      snd (save_image camera_world [scan_cmyk] 0 [''images'', ''small'', ''scan.jpg'']))"
    by (simp add: prod_eq_iff)
  have c: "fst (convert_mode [scan_cmyk] 0) ! snd (convert_mode [scan_cmyk] 0) =
      scan_cmyk\<lparr>mode := ''RGB'', pixels := Converted (Decoded 3) ''RGB''\<rparr>"
    by (simp add: image_eval scan_cmyk_def)
  have l: "lower (suffix [''images'', ''small'', ''scan.jpg'']) = ''.jpg''" by (simp add: path_eval)
  have k: "clock camera_world = 10" by (simp add: camera_world_def)
  show ?thesis
    using convert_mode_only_for_jpeg [of "[scan_cmyk]" 0 camera_world
        "[''images'', ''small'', ''scan.jpg'']" "[''images'', ''small'', ''scan.jpg'']"
        "snd (save_image camera_world [scan_cmyk] 0 [''images'', ''small'', ''scan.jpg''])"]
      m s s2 c l k
    by simp
qed

subsection \<open>C6: a second run skips every file\<close>

text \<open>
  Claim C6. For every source directory in which the first run completed, a second run
  with no change to the source files yields skipped outcomes for all scanned files.

  This holds when the first run reported no error, the output directories are not the
  source directory, no scanned file is newer than the clock that stamps the outputs, and
  the standard output takes every line: then the second run, at whatever time, scans the
  same files, reports each of them as skipped, prints the summary, and leaves the world
  as it is.
\<close>

theorem second_run_skips_all:
  assumes "small a \<noteq> src a" "large a \<noteq> src a"
    and "\<forall>p\<in>set (scan w (src a)). \<forall>f. map_of (files w) p = Some f \<longrightarrow> mtime f \<le> clock w"
    and "\<forall>l. out l = None"
    and "\<forall>n m. Error n m \<notin> set (fst (fst (main out w a)))"
  shows "main out ((snd (main out w a))\<lparr>clock := t\<rparr>) a =
           ((map (\<lambda>p. Skipped (name p)) (scan w (src a)),
             Inr \<lparr>ok = 0, skipped = length (scan w (src a)), error = 0\<rparr>),
            (snd (main out w a))\<lparr>clock := t\<rparr>)"
proof -
  define imgs where "imgs = scan w (src a)"
  obtain rs x w1 where lp0: "main_loop out w imgs a = ((rs, x), w1)"
    by (metis surj_pair)
  have "x = None" using main_loop_printed [OF assms(4), of w imgs a] lp0 by simp
  then have lp: "main_loop out w imgs a = ((rs, None), w1)" using lp0 by simp
  have m: "fst (fst (main out w a)) = rs" "snd (main out w a) = w1"
    using lp by (simp_all add: main_def imgs_def Let_def print_accepts [OF assms(4)])
  have h: "\<forall>p\<in>set imgs. name p \<noteq> [] \<and> butlast p \<noteq> small a \<and> butlast p \<noteq> large a \<and>
       (\<forall>f. map_of (files w) p = Some f \<longrightarrow> mtime f \<le> clock w)"
    using assms(1,2,3) scan_set [of _ w "src a"] unfolding imgs_def by metis
  have e: "\<forall>n m. Error n m \<notin> set rs" using assms(5) m(1) by simp
  note pres = main_loop_pres [OF lp e h]
  have it: "iterdir w1 (src a) = iterdir w (src a)" using pres assms(1,2) by metis
  have "scan w1 (src a) = imgs"
    unfolding scan_def imgs_def it
  proof (rule filter_cong [OF refl])
    fix p assume "p \<in> set (iterdir w (src a))"
    then have "butlast p = src a" by (rule iterdir_butlast)
    then have "map_of (files w1) p = map_of (files w) p" using pres assms(1,2) by metis
    then show "(is_file w1 p \<and> is_image p) = (is_file w p \<and> is_image p)"
      by (simp add: is_file_def exists_def)
  qed
  then have sc: "scan (w1\<lparr>clock := t\<rparr>) (src a) = imgs" by (simp add: scan_clock)
  have "\<forall>p\<in>set imgs.
          already_fresh (w1\<lparr>clock := t\<rparr>) p (small_out p (small a)) (large_out p (large a)) = Inr True
             \<and> (\<exists>x. Image_open (w1\<lparr>clock := t\<rparr>) p [] = Inr x)"
    using pres by (simp add: already_fresh_clock Image_open_clock)
  from main_loop_skips [OF this assms(4)]
  have "main_loop out (w1\<lparr>clock := t\<rparr>) imgs a =
          ((map (\<lambda>p. Skipped (name p)) imgs, None), w1\<lparr>clock := t\<rparr>)" .
  then show ?thesis
    unfolding m(2)
    by (simp add: main_def sc Let_def count_skipped print_accepts [OF assms(4)] flip: imgs_def)
qed

theorem second_run_skips_all_witness:
  "fst (main terminal gallery default_args) =
     ([Ok ''a.jpg'' ''a.jpg'' ''a.jpg'', Ok ''b.png'' ''b.png'' ''b.png''],
      Inr \<lparr>ok = 2, skipped = 0, error = 0\<rparr>) \<and>
   fst (main terminal ((snd (main terminal gallery default_args))\<lparr>clock := 11\<rparr>) default_args) =
     ([Skipped ''a.jpg'', Skipped ''b.png''], Inr \<lparr>ok = 0, skipped = 2, error = 0\<rparr>)"
proof -
  have 1: "small default_args \<noteq> src default_args" by (simp add: default_args_def)
  have 2: "large default_args \<noteq> src default_args" by (simp add: default_args_def)
  have sc: "scan gallery (src default_args) = [[''images'', ''a.jpg''], [''images'', ''b.png'']]"
    by (simp add: main_eval path_eval exists_def gallery_def)
  have 3: "\<forall>p\<in>set (scan gallery (src default_args)).
             \<forall>f. map_of (files gallery) p = Some f \<longrightarrow> mtime f \<le> clock gallery"
    unfolding sc by (simp add: gallery_def)
  have 4: "\<forall>l. terminal l = None" by (simp add: terminal_def)
  have m: "fst (main terminal gallery default_args) =
     ([Ok ''a.jpg'' ''a.jpg'' ''a.jpg'', Ok ''b.png'' ''b.png'' ''b.png''],
      Inr \<lparr>ok = 2, skipped = 0, error = 0\<rparr>)"
    by (simp add: main_eval world_eval image_eval path_eval gallery_def photo_def icon_def)
  have 5: "\<forall>n m. Error n m \<notin> set (fst (fst (main terminal gallery default_args)))"
    unfolding m by simp
  show ?thesis
    using second_run_skips_all [OF 1 2 3 4 5, of 11] m sc by (simp add: name_def)
qed

text \<open>
  A first run completes also when a file cannot be decoded; the second run then reports
  the same error again, not a skip.
\<close>

theorem second_run_repeats_error:
  "fst (main terminal corrupt_world default_args) =
     ([Error ''c.jpg'' ''cannot identify image file'', Ok ''a.jpg'' ''a.jpg'' ''a.jpg''],
      Inr \<lparr>ok = 1, skipped = 0, error = 1\<rparr>) \<and>
   fst (main terminal (snd (main terminal corrupt_world default_args)) default_args) =
     ([Error ''c.jpg'' ''cannot identify image file'', Skipped ''a.jpg''],
      Inr \<lparr>ok = 0, skipped = 1, error = 1\<rparr>)"
  by (simp add: main_eval world_eval image_eval path_eval corrupt_world_def photo_def)

subsection \<open>C7: no upscaling\<close>

text \<open>
  Claim C7. For every image already smaller than the maximum dimension \<open>N\<close> in width
  and in height, \<^verbatim>\<open>resize_fit\<close> returns an image with the dimensions of the source.

  The result is a new object equal to the source image; this holds also when an edge is
  exactly \<open>N\<close>.
\<close>

theorem resize_fit_no_upscale:
  assumes "r < length h" "int (width (h ! r)) \<le> n" "int (height (h ! r)) \<le> n"
  shows "\<exists>h' s. resize_fit h r n = Inr (h', s) \<and> h' ! s = h ! r \<and>
           width (h' ! s) = width (h ! r) \<and> height (h' ! s) = height (h ! r)"
  using resize_fit_within [OF assms] by simp

theorem resize_fit_no_upscale_witness:
  "\<exists>h' s. resize_fit [icon] 0 1200 = Inr (h', s) \<and> h' ! s = icon \<and>
     width (h' ! s) = 500 \<and> height (h' ! s) = 300"
  using resize_fit_no_upscale [of 0 "[icon]" 1200] by (simp add: icon_def)

subsection \<open>C8: the stem of the outputs\<close>

text \<open>
  Claim C8. For every processed source file the stem of the small and of the large output
  path equals the stem of the input; only the extension may differ, and only when the
  input format is unsupported as an output format, in which case it becomes .jpg.

  For a source with a name, both output paths have the stem of the input and the
  extension \<open>out_ext\<close>, and so have the names a successful \<open>process_image\<close> reports.
  The extension differs from the input's exactly when the input's extension is not
  literally one of .jpg, .jpeg, .png, .webp.
\<close>

theorem output_stem:
  assumes "name in_path \<noteq> []"
  shows "stem (small_out in_path small_dir) = stem in_path \<and>
         stem (large_out in_path large_dir) = stem in_path \<and>
         name (small_out in_path small_dir) = stem in_path @ out_ext in_path \<and>
         name (large_out in_path large_dir) = stem in_path @ out_ext in_path \<and>
         (out_ext in_path \<noteq> suffix in_path \<longleftrightarrow>
            suffix in_path \<notin> {''.jpg'', ''.jpeg'', ''.png'', ''.webp''}) \<and>
         (process_image w in_path small_dir large_dir a b = (Ok n s l, w1) \<longrightarrow>
            stem [s] = stem in_path \<and> stem [l] = stem in_path)"
proof -
  have 1: "stem (small_out in_path small_dir) = stem in_path"
    using assms by (rule stem_small_out)
  have 2: "stem (large_out in_path large_dir) = stem in_path"
    using assms by (rule stem_large_out)
  have 6: "stem [s] = stem in_path \<and> stem [l] = stem in_path"
    if "process_image w in_path small_dir large_dir a b = (Ok n s l, w1)"
  proof -
    from process_image_Ok [OF that assms]
    have ns: "name [s] = name (small_out in_path small_dir)"
      and nl: "name [l] = name (large_out in_path large_dir)"
      by (simp_all add: name_single)
    have "stem [s] = stem (small_out in_path small_dir)" using ns by (rule stem_name_cong)
    moreover have "stem [l] = stem (large_out in_path large_dir)" using nl by (rule stem_name_cong)
    ultimately show ?thesis using 1 2 by simp
  qed
  have 3: "name (small_out in_path small_dir) = stem in_path @ out_ext in_path"
    by (rule name_small_out)
  have 4: "name (large_out in_path large_dir) = stem in_path @ out_ext in_path"
    by (rule name_large_out)
  have 5: "out_ext in_path \<noteq> suffix in_path \<longleftrightarrow>
            suffix in_path \<notin> {''.jpg'', ''.jpeg'', ''.png'', ''.webp''}"
    by (rule out_ext_differs)
  have 7: "process_image w in_path small_dir large_dir a b = (Ok n s l, w1) \<longrightarrow>
            stem [s] = stem in_path \<and> stem [l] = stem in_path"
    using 6 by (rule impI)
  show ?thesis using 1 2 3 4 5 7 by (intro conjI)
qed

theorem output_stem_witness:
  "stem [''images'', ''scan.tiff''] = ''scan'' \<and>
   stem (small_out [''images'', ''scan.tiff''] [''images'', ''small'']) = ''scan'' \<and>
   stem (large_out [''images'', ''scan.tiff''] [''images'', ''large'']) = ''scan'' \<and>
   name (small_out [''images'', ''scan.tiff''] [''images'', ''small'']) = ''scan.jpg'' \<and>
   stem [''scan.jpg''] = ''scan''"
proof -
  have n: "name [''images'', ''scan.tiff''] \<noteq> []" by (simp add: name_def)
  have st: "stem [''images'', ''scan.tiff''] = ''scan''" by (simp add: path_eval)
  have oe: "out_ext [''images'', ''scan.tiff''] = ''.jpg''" by (simp add: path_eval)
  have p: "fst (process_image camera_world [''images'', ''scan.tiff''] [''images'', ''small'']
          [''images'', ''large''] 1200 2400) = Ok ''scan.tiff'' ''scan.jpg'' ''scan.jpg''"
    by (simp add: world_eval image_eval path_eval camera_world_def scan_cmyk_def)
  then have p2: "process_image camera_world [''images'', ''scan.tiff''] [''images'', ''small'']
          [''images'', ''large''] 1200 2400 = (Ok ''scan.tiff'' ''scan.jpg'' ''scan.jpg'',
           snd (process_image camera_world [''images'', ''scan.tiff''] [''images'', ''small'']
          [''images'', ''large''] 1200 2400))"
    by (simp add: prod_eq_iff)
  show ?thesis
    using output_stem [OF n, of "[''images'', ''small'']" "[''images'', ''large'']"
        camera_world 1200 2400 "''scan.tiff''" "''scan.jpg''" "''scan.jpg''"
        "snd (process_image camera_world [''images'', ''scan.tiff''] [''images'', ''small'']
          [''images'', ''large''] 1200 2400)"] p p2
    by (simp add: path_eval)
qed

text \<open>
  The extension differs also for a supported format: an upper-case .PNG is written as
  .png.
\<close>

theorem upper_case_name_changes:
  "suffix [''images'', ''DSC1.PNG''] = ''.PNG'' \<and>
   lower (suffix [''images'', ''DSC1.PNG'']) = ''.png'' \<and>
   name (small_out [''images'', ''DSC1.PNG''] [''images'', ''small'']) = ''DSC1.png'' \<and>
   name (large_out [''images'', ''DSC1.PNG''] [''images'', ''large'']) = ''DSC1.png'' \<and>
   fst (process_image camera_world [''images'', ''DSC1.PNG''] [''images'', ''small'']
          [''images'', ''large''] 1200 2400) = Ok ''DSC1.PNG'' ''DSC1.png'' ''DSC1.png''"
  by (simp add: world_eval image_eval path_eval camera_world_def icon_def)

subsection \<open>C9: resizing leaves its input alone\<close>



subsection \<open>C10: a skip writes nothing\<close>

text \<open>
  Claim C10. Whenever \<^verbatim>\<open>process_image\<close> returns a skipped outcome it has written
  nothing: both outputs and their timestamps are as they were before the call.
\<close>

theorem skipped_writes_nothing:
  assumes "process_image w in_path small_dir large_dir a b = (Skipped n, w1)"
  shows "w1 = w \<and> files w1 = files w \<and>
         map_of (files w1) (small_out in_path small_dir) = map_of (files w) (small_out in_path small_dir) \<and>
         map_of (files w1) (large_out in_path large_dir) = map_of (files w) (large_out in_path large_dir)"
  using skippedD [OF assms] by simp

theorem skipped_writes_nothing_witness:
  "process_image kept_world [''images'', ''a.jpg''] [''images'', ''small''] [''images'', ''large'']
     1200 2400 = (Skipped ''a.jpg'', kept_world) \<and>
   files (snd (process_image kept_world [''images'', ''a.jpg''] [''images'', ''small'']
     [''images'', ''large''] 1200 2400)) = files kept_world"
proof -
  have h: "process_image kept_world [''images'', ''a.jpg''] [''images'', ''small''] [''images'', ''large'']
     1200 2400 = (Skipped ''a.jpg'', kept_world)"
    by (simp add: world_eval image_eval path_eval kept_world_def photo_def)
  show ?thesis using skipped_writes_nothing [OF h] h by simp
qed

end
